theory Spec2Isabelle
  imports Main "HOL-Library.AList" "HOL-Library.Sublist"
begin

section \<open>PNG to JPEG batch converter: a shallow embedding\<close>

text \<open>
  The development follows \<^verbatim>\<open>png2jpg.py\<close> (argument validation, the two single-file
  converters, the directory walker, the command-line entry point) and
  \<^verbatim>\<open>png2jpg_gui.py\<close> (the colour parser of the custom field, the worker thread).
  Strings are lists of 8-bit characters, Python integers are \<open>int\<close>, exceptions are
  values, the file system is passed explicitly and every line printed or handed to a
  callback is an element of an event list.
\<close>

subsection \<open>Python built-ins used by the program\<close>

text \<open>
  \<^verbatim>\<open>str.isspace\<close> on the ASCII range: tab, line feed, vertical tab, form feed, carriage
  return, the four separators 0x1c..0x1f and the blank.
\<close>

definition is_space :: "char \<Rightarrow> bool" where
  "is_space c = (let n = (of_char c :: nat) in (9 \<le> n \<and> n \<le> 13) \<or> (28 \<le> n \<and> n \<le> 32))"

definition strip :: "string \<Rightarrow> string" where
  "strip s = rev (dropWhile is_space (rev (dropWhile is_space s)))"

text \<open>\<^verbatim>\<open>str.split(sep)\<close> for a one-character separator: never the empty list.\<close>

fun split :: "char \<Rightarrow> string \<Rightarrow> string list" where
  "split sep [] = [[]]"
| "split sep (c # cs) =
     (if c = sep then [] # split sep cs
      else (case split sep cs of [] \<Rightarrow> [[c]] | w # ws \<Rightarrow> (c # w) # ws))"

definition digit_val :: "char \<Rightarrow> nat option" where
  "digit_val c =
     (let n = (of_char c :: nat) in if 48 \<le> n \<and> n \<le> 57 then Some (n - 48) else None)"

text \<open>
  The digits of a decimal literal after the first one: a single underscore may stand
  between two digits.
\<close>

fun parse_digits :: "nat \<Rightarrow> string \<Rightarrow> nat option" where
  "parse_digits acc [] = Some acc"
| "parse_digits acc [c] =
     (case digit_val c of None \<Rightarrow> None | Some v \<Rightarrow> Some (acc * 10 + v))"
| "parse_digits acc (c # d # ds) =
     (if c = CHR ''_'' then
        (case digit_val d of None \<Rightarrow> None | Some v \<Rightarrow> parse_digits (acc * 10 + v) ds)
      else
        (case digit_val c of None \<Rightarrow> None | Some v \<Rightarrow> parse_digits (acc * 10 + v) (d # ds)))"

definition py_digits :: "string \<Rightarrow> nat option" where
  "py_digits s =
     (case s of [] \<Rightarrow> None
      | c # cs \<Rightarrow> (case digit_val c of None \<Rightarrow> None | Some v \<Rightarrow> parse_digits v cs))"

text \<open>
  \<^verbatim>\<open>int(s)\<close> in base 10: surrounding white space is dropped, one sign is allowed,
  leading zeros are allowed; \<open>None\<close> is the \<^verbatim>\<open>ValueError\<close> "invalid literal".
  Digits outside ASCII and the digit-count limit of recent interpreters are not
  modelled.
\<close>

definition py_int :: "string \<Rightarrow> int option" where
  "py_int s =
     (case strip s of [] \<Rightarrow> None
      | c # cs \<Rightarrow>
          if c = CHR ''-'' then map_option (\<lambda>n. - int n) (py_digits cs)
          else if c = CHR ''+'' then map_option int (py_digits cs)
          else map_option int (py_digits (c # cs)))"

text \<open>\<^verbatim>\<open>str.lower\<close> on the ASCII letters.\<close>

definition lower_char :: "char \<Rightarrow> char" where
  "lower_char c =
     (let n = (of_char c :: nat) in if 65 \<le> n \<and> n \<le> 90 then char_of (n + 32) else c)"

definition lower :: "string \<Rightarrow> string" where
  "lower s = map lower_char s"

text \<open>\<^verbatim>\<open>str(n)\<close> for an integer, as the f-strings of the program print it.\<close>

definition digit_char :: "nat \<Rightarrow> char" where
  "digit_char n = char_of (48 + n mod 10)"

fun str_nat :: "nat \<Rightarrow> string" where
  "str_nat n = (if n < 10 then [digit_char n] else str_nat (n div 10) @ [digit_char n])"

declare str_nat.simps [simp del]

definition str_int :: "int \<Rightarrow> string" where
  "str_int i = (if i < 0 then CHR ''-'' # str_nat (nat (- i)) else str_nat (nat i))"

definition str_bool :: "bool \<Rightarrow> string" where
  "str_bool b = (if b then ''True'' else ''False'')"

text \<open>\<^verbatim>\<open>sep.join(parts)\<close>.\<close>

fun join :: "string \<Rightarrow> string list \<Rightarrow> string" where
  "join sep [] = []"
| "join sep [x] = x"
| "join sep (x # y # ys) = x @ sep @ join sep (y # ys)"

subsection \<open>Paths: \<^verbatim>\<open>pathlib\<close> and \<^verbatim>\<open>os.path\<close>\<close>

text \<open>
  A \<^verbatim>\<open>Path\<close> is the list of its parts, read from the working directory of the
  process (the root of the modelled file system); \<open>[]\<close> is \<^verbatim>\<open>Path('.')\<close>. Absolute
  anchors and \<^verbatim>\<open>..\<close> are not modelled.
\<close>

type_synonym path = "string list"

definition str_path :: "path \<Rightarrow> string" where
  "str_path p = (if p = [] then ''.'' else join ''/'' p)"

definition path_name :: "path \<Rightarrow> string" where
  "path_name p = (if p = [] then [] else last p)"

text \<open>
  \<^verbatim>\<open>PurePath.suffix\<close>: the part of the name from its last dot on, unless that dot is
  the first or the last character of the name.
\<close>

definition name_suffix :: "string \<Rightarrow> string" where
  "name_suffix name =
     (let tail = takeWhile (\<lambda>c. c \<noteq> CHR ''.'') (rev name)
      in if CHR ''.'' \<notin> set name then []
         else let i = length name - length tail - 1
              in if 0 < i \<and> i < length name - 1 then drop i name else [])"

definition path_suffix :: "path \<Rightarrow> string" where
  "path_suffix p = name_suffix (path_name p)"

text \<open>
  \<^verbatim>\<open>PurePath.with_suffix\<close> for a suffix that is well formed (\<^verbatim>\<open>.jpg\<close> is): it raises
  \<^verbatim>\<open>ValueError\<close> on an empty name, here \<open>None\<close>.
\<close>

definition with_suffix :: "path \<Rightarrow> string \<Rightarrow> path option" where
  "with_suffix p suf =
     (let name = path_name p in
      if name = [] then None
      else let old_suffix = name_suffix name
           in if old_suffix = [] then Some (butlast p @ [name @ suf])
              else Some (butlast p @ [take (length name - length old_suffix) name @ suf]))"

text \<open>\<^verbatim>\<open>PurePath.relative_to\<close>: \<^verbatim>\<open>ValueError\<close> (here \<open>None\<close>) unless the base is a prefix.\<close>

definition relative_to :: "path \<Rightarrow> path \<Rightarrow> path option" where
  "relative_to p base = (if prefix base p then Some (drop (length base) p) else None)"

text \<open>\<^verbatim>\<open>posixpath.basename\<close> and \<^verbatim>\<open>posixpath.dirname\<close>, on strings.\<close>

definition basename :: "string \<Rightarrow> string" where
  "basename p = rev (takeWhile (\<lambda>c. c \<noteq> CHR ''/'') (rev p))"

definition dirname :: "string \<Rightarrow> string" where
  "dirname p =
     (let head = take (length p - length (basename p)) p in
      if head \<noteq> [] \<and> \<not> list_all (\<lambda>c. c = CHR ''/'') head
      then rev (dropWhile (\<lambda>c. c = CHR ''/'') (rev head))
      else head)"

text \<open>
  How the operating system reads a path string: the components between slashes, empty
  ones and \<^verbatim>\<open>.\<close> dropped.
\<close>

definition resolve :: "string \<Rightarrow> path" where
  "resolve s = filter (\<lambda>n. n \<noteq> [] \<and> n \<noteq> ''.'') (split (CHR ''/'') s)"

subsection \<open>The file system\<close>

type_synonym bytes = "nat list"

datatype entry = FileE bytes | DirE

text \<open>
  The entries in the order in which the operating system enumerates them; the root
  (the working directory) is always a directory and has no entry of its own.
\<close>

type_synonym fs = "(path \<times> entry) list"

datatype exn =
    FileNotFoundError string
  | FileExistsError string
  | NotADirectoryError string
  | IsADirectoryError string
  | ImageError string
  | ValueError string

definition is_dir :: "fs \<Rightarrow> path \<Rightarrow> bool" where
  "is_dir fs p = (p = [] \<or> map_of fs p = Some DirE)"

definition isdir :: "fs \<Rightarrow> string \<Rightarrow> bool" where
  "isdir fs s = (s \<noteq> [] \<and> is_dir fs (resolve s))"

text \<open>
  \<^verbatim>\<open>Path.glob("*")\<close>: the children of a directory; \<^verbatim>\<open>Path.rglob("*")\<close>: everything
  below it.
\<close>

definition glob_star :: "fs \<Rightarrow> path \<Rightarrow> path list" where
  "glob_star fs d =
     (if is_dir fs d
      then filter (\<lambda>p. length p = Suc (length d) \<and> prefix d p) (map fst fs)
      else [])"

definition rglob_star :: "fs \<Rightarrow> path \<Rightarrow> path list" where
  "rglob_star fs d =
     (if is_dir fs d then filter (\<lambda>p. strict_prefix d p) (map fst fs) else [])"

text \<open>
  \<^verbatim>\<open>mkdir -p\<close>, from the root down: an existing directory is kept, a missing one is
  created, a file in the way raises. The state reached is returned with the exception.
\<close>

fun mkdirs_from :: "path \<Rightarrow> path \<Rightarrow> fs \<Rightarrow> fs \<times> exn option" where
  "mkdirs_from pre [] fs = (fs, None)"
| "mkdirs_from pre (n # ns) fs =
     (case map_of fs (pre @ [n]) of
        Some DirE \<Rightarrow> mkdirs_from (pre @ [n]) ns fs
      | Some (FileE b) \<Rightarrow>
          (fs, Some (if ns = [] then FileExistsError (str_path (pre @ [n]))
                     else NotADirectoryError (str_path (pre @ [n] @ [hd ns]))))
      | None \<Rightarrow> mkdirs_from (pre @ [n]) ns (fs @ [(pre @ [n], DirE)]))"

text \<open>\<^verbatim>\<open>os.makedirs(name, exist_ok=True)\<close>: the empty name raises.\<close>

definition makedirs :: "fs \<Rightarrow> string \<Rightarrow> fs \<times> exn option" where
  "makedirs fs name =
     (if name = [] then (fs, Some (FileNotFoundError name))
      else mkdirs_from [] (resolve name) fs)"

text \<open>\<^verbatim>\<open>Path.mkdir(parents=True, exist_ok=True)\<close>.\<close>

definition path_mkdir :: "fs \<Rightarrow> path \<Rightarrow> fs \<times> exn option" where
  "path_mkdir fs p = mkdirs_from [] p fs"

definition write_file :: "fs \<Rightarrow> path \<Rightarrow> bytes \<Rightarrow> fs" where
  "write_file fs p b = AList.update p (FileE b) fs"

subsection \<open>Images and the image library\<close>

text \<open>
  A decoded image: its pixel dimensions and its pixels in raster order, typed by the
  mode. Band values are bytes (0..255). A palette image carries its colour table and
  the transparency of the \<^verbatim>\<open>tRNS\<close> chunk (one transparent index, or a table of alpha
  values for the first indices).
\<close>

type_synonym rgb = "nat \<times> nat \<times> nat"

datatype transparency = NoTransparency | TransparentIndex nat | AlphaTable "nat list"

datatype other_mode =
  Mode_1 | Mode_L | Mode_I | Mode_I16 | Mode_F | Mode_CMYK | Mode_YCbCr | Mode_LAB
  | Mode_HSV | Mode_PA | Mode_RGBX | Mode_RGBa | Mode_La

datatype raster =
    PixRGBA "(nat \<times> nat \<times> nat \<times> nat) list"
  | PixLA "(nat \<times> nat) list"
  | PixP "nat list" "rgb list" transparency
  | PixRGB "rgb list"
  | PixOther other_mode bytes

record image =
  im_size :: "nat \<times> nat"
  im_data :: raster

fun other_mode_name :: "other_mode \<Rightarrow> string" where
  "other_mode_name Mode_1 = ''1''"
| "other_mode_name Mode_L = ''L''"
| "other_mode_name Mode_I = ''I''"
| "other_mode_name Mode_I16 = ''I;16''"
| "other_mode_name Mode_F = ''F''"
| "other_mode_name Mode_CMYK = ''CMYK''"
| "other_mode_name Mode_YCbCr = ''YCbCr''"
| "other_mode_name Mode_LAB = ''LAB''"
| "other_mode_name Mode_HSV = ''HSV''"
| "other_mode_name Mode_PA = ''PA''"
| "other_mode_name Mode_RGBX = ''RGBX''"
| "other_mode_name Mode_RGBa = ''RGBa''"
| "other_mode_name Mode_La = ''La''"

fun raster_mode :: "raster \<Rightarrow> string" where
  "raster_mode (PixRGBA px) = ''RGBA''"
| "raster_mode (PixLA px) = ''LA''"
| "raster_mode (PixP idx pal t) = ''P''"
| "raster_mode (PixRGB px) = ''RGB''"
| "raster_mode (PixOther m d) = other_mode_name m"

definition mode :: "image \<Rightarrow> string" where
  "mode img = raster_mode (im_data img)"

text \<open>
  The capabilities the program takes from the image library and does not implement:
  decoding a file (\<^verbatim>\<open>Image.open\<close> and the load it triggers), \<^verbatim>\<open>convert('RGB')\<close> of a
  mode without alpha, and \<^verbatim>\<open>save(path, 'JPEG', quality=q, optimize=True)\<close>. A failure
  gives the text of the exception. A failed save also tells what it left at the path
  it had opened: \<open>None\<close> when the path is as before, \<open>Some b\<close> when a partial file \<open>b\<close>
  stands there.
\<close>

record imaging =
  decode :: "bytes \<Rightarrow> string + image"
  convert_rgb :: "image \<Rightarrow> string + image"
  jpeg_save :: "image \<Rightarrow> int \<Rightarrow> (string \<times> bytes option) + bytes"

text \<open>
  Modelled from the spec: \<^verbatim>\<open>Image.new('RGB', size, color)\<close> of the image library, which
  is not part of the sources: an opaque canvas of the given pixel dimensions filled
  with the background colour (band values clipped to a byte).
\<close>

definition clip8 :: "int \<Rightarrow> nat" where
  "clip8 v = nat (max 0 (min 255 v))"

definition image_new_rgb :: "nat \<times> nat \<Rightarrow> int \<times> int \<times> int \<Rightarrow> image" where
  "image_new_rgb sz color =
     (case color of (r, g, b) \<Rightarrow>
        \<lparr>im_size = sz, im_data = PixRGB (replicate (fst sz * snd sz) (clip8 r, clip8 g, clip8 b))\<rparr>)"

text \<open>
  Modelled from the spec: \<^verbatim>\<open>convert('RGBA')\<close> of the image library on a palette
  image, which expands each index to its colour and its alpha (255 where the palette
  says nothing).
\<close>

definition palette_rgb :: "rgb list \<Rightarrow> nat \<Rightarrow> rgb" where
  "palette_rgb pal i = (if i < length pal then pal ! i else (0, 0, 0))"

fun palette_alpha :: "transparency \<Rightarrow> nat \<Rightarrow> nat" where
  "palette_alpha NoTransparency i = 255"
| "palette_alpha (TransparentIndex k) i = (if i = k then 0 else 255)"
| "palette_alpha (AlphaTable tbl) i = (if i < length tbl then tbl ! i else 255)"

definition convert_rgba :: "image \<Rightarrow> image" where
  "convert_rgba img =
     (case im_data img of
        PixP idx pal t \<Rightarrow>
          img\<lparr>im_data :=
            PixRGBA (map (\<lambda>i. case palette_rgb pal i of (r, g, b) \<Rightarrow> (r, g, b, palette_alpha t i)) idx)\<rparr>
      | _ \<Rightarrow> img)"

text \<open>
  Modelled from the spec: \<^verbatim>\<open>split()[-1]\<close> of the image library, the last band of an
  image (the alpha channel of an RGBA or LA image), and the colour of each pixel as
  \<^verbatim>\<open>paste\<close> reads it when it pastes into an RGB image.
\<close>

fun last_band :: "raster \<Rightarrow> nat list" where
  "last_band (PixRGBA px) = map (\<lambda>(r, g, b, a). a) px"
| "last_band (PixLA px) = map (\<lambda>(l, a). a) px"
| "last_band (PixP idx pal t) = idx"
| "last_band (PixRGB px) = map (\<lambda>(r, g, b). b) px"
| "last_band (PixOther m d) = []"

fun rgb_pixels :: "raster \<Rightarrow> rgb list" where
  "rgb_pixels (PixRGBA px) = map (\<lambda>(r, g, b, a). (r, g, b)) px"
| "rgb_pixels (PixLA px) = map (\<lambda>(l, a). (l, l, l)) px"
| "rgb_pixels (PixP idx pal t) = map (palette_rgb pal) idx"
| "rgb_pixels (PixRGB px) = px"
| "rgb_pixels (PixOther m d) = []"

text \<open>
  Modelled from the spec: \<^verbatim>\<open>paste(im, mask=...)\<close> of the image library, the alpha
  compositing the converter delegates to it. Each band of the destination becomes
  the mix of destination and source under the mask, in 8-bit integer arithmetic with
  rounding: mask 0 keeps the destination, mask 255 copies the source. Without a mask
  the source is copied.
\<close>

definition div255 :: "nat \<Rightarrow> nat" where
  "div255 a = (let tmp = a + 128 in (tmp div 256 + tmp) div 256)"

definition blend8 :: "nat \<Rightarrow> nat \<Rightarrow> nat \<Rightarrow> nat" where
  "blend8 m in1 in2 = div255 (in1 * (255 - m) + in2 * m)"

fun blend_rgb :: "nat \<Rightarrow> rgb \<Rightarrow> rgb \<Rightarrow> rgb" where
  "blend_rgb m (r1, g1, b1) (r2, g2, b2) =
     (blend8 m r1 r2, blend8 m g1 g2, blend8 m b1 b2)"

fun paste_mask :: "rgb list \<Rightarrow> rgb list \<Rightarrow> nat list \<Rightarrow> rgb list" where
  "paste_mask (out # outs) (inp # inps) (m # ms) = blend_rgb m out inp # paste_mask outs inps ms"
| "paste_mask outs inps ms = outs"

fun paste_plain :: "rgb list \<Rightarrow> rgb list \<Rightarrow> rgb list" where
  "paste_plain (out # outs) (inp # inps) = inp # paste_plain outs inps"
| "paste_plain outs inps = outs"

definition paste :: "image \<Rightarrow> image \<Rightarrow> nat list option \<Rightarrow> image" where
  "paste dst src msk =
     (case im_data dst of
        PixRGB canvas \<Rightarrow>
          dst\<lparr>im_data := PixRGB
            (case msk of
               Some ms \<Rightarrow> paste_mask canvas (rgb_pixels (im_data src)) ms
             | None \<Rightarrow> paste_plain canvas (rgb_pixels (im_data src)))\<rparr>
      | _ \<Rightarrow> dst)"

text \<open>\<^verbatim>\<open>str(e)\<close> of an exception; \<^verbatim>\<open>repr\<close> of a string without quotes or escapes.\<close>

definition py_repr :: "string \<Rightarrow> string" where
  "py_repr s = [CHR 0x27] @ s @ [CHR 0x27]"

fun exn_str :: "exn \<Rightarrow> string" where
  "exn_str (FileNotFoundError f) = ''[Errno 2] No such file or directory: '' @ py_repr f"
| "exn_str (FileExistsError f) = ''[Errno 17] File exists: '' @ py_repr f"
| "exn_str (NotADirectoryError f) = ''[Errno 20] Not a directory: '' @ py_repr f"
| "exn_str (IsADirectoryError f) = ''[Errno 21] Is a directory: '' @ py_repr f"
| "exn_str (ImageError m) = m"
| "exn_str (ValueError m) = m"

text \<open>
  Modelled from the spec: \<^verbatim>\<open>Image.open(fp)\<close> of the image library, with the decoding
  it defers: it fails when the file is unreadable or is no valid image.
\<close>

definition image_open :: "imaging \<Rightarrow> fs \<Rightarrow> string \<Rightarrow> exn + image" where
  "image_open lib fs fp =
     (if is_dir fs (resolve fp) then Inl (IsADirectoryError fp)
      else (case map_of fs (resolve fp) of
              Some (FileE b) \<Rightarrow>
                (case decode lib b of Inl m \<Rightarrow> Inl (ImageError m) | Inr img \<Rightarrow> Inr img)
            | _ \<Rightarrow> Inl (FileNotFoundError fp)))"

text \<open>
  Modelled from the spec: \<^verbatim>\<open>img.save(fp, 'JPEG', quality=quality, optimize=True)\<close> of
  the image library, a direct overwrite with no temporary file: the file is opened
  for writing in its directory, then the encoder runs; a failed encoder may leave a
  partial file at the path.
\<close>

definition save :: "imaging \<Rightarrow> fs \<Rightarrow> image \<Rightarrow> string \<Rightarrow> int \<Rightarrow> fs \<times> exn option" where
  "save lib fs img fp q =
     (let p = resolve fp in
      if is_dir fs p then (fs, Some (IsADirectoryError fp))
      else if \<not> is_dir fs (butlast p) then (fs, Some (FileNotFoundError fp))
      else (case jpeg_save lib img q of
              Inr b \<Rightarrow> (write_file fs p b, None)
            | Inl (m, None) \<Rightarrow> (fs, Some (ImageError m))
            | Inl (m, Some partial) \<Rightarrow> (write_file fs p partial, Some (ImageError m))))"

subsection \<open>Output of the program\<close>

text \<open>
  What a thread of the program does to the outside, in order: a line on standard
  output, a line on standard error, a call that changes a widget of the window in the
  calling thread, or \<^verbatim>\<open>root.after(0, f)\<close>, which queues \<open>f\<close> for the event loop of the
  user-interface thread.
\<close>

datatype ui_call = LogMessage string bool | ConversionComplete

datatype event = Print string | PrintErr string | Widget ui_call | After ui_call

type_synonym callback = "string \<Rightarrow> bool \<Rightarrow> event list"

subsection \<open>The single-file converters (\<^verbatim>\<open>png2jpg.py\<close>)\<close>

text \<open>
  The body of the \<^verbatim>\<open>try\<close> statement of \<^verbatim>\<open>convert_image\<close>: the file system it leaves
  and the exception it raised, if any.
\<close>

definition convert_image_try ::
  "imaging \<Rightarrow> fs \<Rightarrow> string \<Rightarrow> string \<Rightarrow> int \<Rightarrow> int \<times> int \<times> int \<Rightarrow> fs \<times> exn option" where
  "convert_image_try lib fs input_path output_path quality bg_color =
     (case image_open lib fs input_path of
        Inl e \<Rightarrow> (fs, Some e)
      | Inr img \<Rightarrow>
          (case
             (if mode img \<in> set [''RGBA'', ''LA'', ''P''] then
                (let background = image_new_rgb (im_size img) bg_color;
                     img1 = (if mode img = ''P'' then convert_rgba img else img);
                     background1 =
                       (if mode img1 = ''RGBA'' then
                          paste background img1 (Some (last_band (im_data img1)))
                        else if mode img1 = ''LA'' then
                          paste background img1 (Some (last_band (im_data img1)))
                        else paste background img1 None)
                 in Inr background1)
              else if mode img \<noteq> ''RGB'' then convert_rgb lib img
              else Inr img)
           of
             Inl m \<Rightarrow> (fs, Some (ImageError m))
           | Inr img2 \<Rightarrow>
               (case makedirs fs (dirname output_path) of
                  (fs1, Some e) \<Rightarrow> (fs1, Some e)
                | (fs1, None) \<Rightarrow> save lib fs1 img2 output_path quality)))"

definition convert_image ::
  "imaging \<Rightarrow> fs \<Rightarrow> string \<Rightarrow> string \<Rightarrow> int \<Rightarrow> int \<times> int \<times> int \<Rightarrow> bool \<times> fs \<times> event list" where
  "convert_image lib fs input_path output_path quality bg_color =
     (case convert_image_try lib fs input_path output_path quality bg_color of
        (fs1, None) \<Rightarrow> (True, fs1, [])
      | (fs1, Some e) \<Rightarrow>
          (False, fs1, [PrintErr (''Error converting '' @ input_path @ '': '' @ exn_str e)]))"

text \<open>The same for \<^verbatim>\<open>convert_image_with_callback\<close>, whose body is written out again.\<close>

definition convert_image_with_callback_try ::
  "imaging \<Rightarrow> fs \<Rightarrow> string \<Rightarrow> string \<Rightarrow> int \<Rightarrow> int \<times> int \<times> int \<Rightarrow> fs \<times> exn option" where
  "convert_image_with_callback_try lib fs input_path output_path quality bg_color =
     (case image_open lib fs input_path of
        Inl e \<Rightarrow> (fs, Some e)
      | Inr img \<Rightarrow>
          (case
             (if mode img \<in> set [''RGBA'', ''LA'', ''P''] then
                (let background = image_new_rgb (im_size img) bg_color;
                     img1 = (if mode img = ''P'' then convert_rgba img else img);
                     background1 =
                       (if mode img1 = ''RGBA'' then
                          paste background img1 (Some (last_band (im_data img1)))
                        else if mode img1 = ''LA'' then
                          paste background img1 (Some (last_band (im_data img1)))
                        else paste background img1 None)
                 in Inr background1)
              else if mode img \<noteq> ''RGB'' then convert_rgb lib img
              else Inr img)
           of
             Inl m \<Rightarrow> (fs, Some (ImageError m))
           | Inr img2 \<Rightarrow>
               (case makedirs fs (dirname output_path) of
                  (fs1, Some e) \<Rightarrow> (fs1, Some e)
                | (fs1, None) \<Rightarrow> save lib fs1 img2 output_path quality)))"

definition convert_image_with_callback ::
  "imaging \<Rightarrow> fs \<Rightarrow> string \<Rightarrow> string \<Rightarrow> int \<Rightarrow> int \<times> int \<times> int \<Rightarrow> callback option
     \<Rightarrow> bool \<times> fs \<times> event list" where
  "convert_image_with_callback lib fs input_path output_path quality bg_color progress_callback =
     (case convert_image_with_callback_try lib fs input_path output_path quality bg_color of
        (fs1, None) \<Rightarrow> (True, fs1, [])
      | (fs1, Some e) \<Rightarrow>
          (let error_msg = ''Error: '' @ basename input_path @ '' - '' @ exn_str e
           in (False, fs1,
               (case progress_callback of
                  Some cb \<Rightarrow> cb error_msg True
                | None \<Rightarrow> [PrintErr error_msg]))))"

subsection \<open>Argument validation (\<^verbatim>\<open>parse_arguments\<close>)\<close>

text \<open>\<^verbatim>\<open>tuple(int(x.strip()) for x in parts)\<close>: the first part that is no integer raises.\<close>

fun ints_of :: "string list \<Rightarrow> string + int list" where
  "ints_of [] = Inr []"
| "ints_of (x # xs) =
     (case py_int (strip x) of
        None \<Rightarrow> Inl (''invalid literal for int() with base 10: '' @ py_repr (strip x))
      | Some v \<Rightarrow> (case ints_of xs of Inl m \<Rightarrow> Inl m | Inr vs \<Rightarrow> Inr (v # vs)))"

text \<open>
  The \<^verbatim>\<open>try\<close> block that validates and parses the background colour; \<open>Inl\<close> is the
  text of the \<^verbatim>\<open>ValueError\<close>.
\<close>

definition parse_background :: "string \<Rightarrow> string + int \<times> int \<times> int" where
  "parse_background background =
     (let bg_parts = split (CHR '','') background in
      if length bg_parts \<noteq> 3 then Inl ''Background color must have exactly 3 values''
      else (case ints_of bg_parts of
              Inl m \<Rightarrow> Inl m
            | Inr bg_color \<Rightarrow>
                (case find (\<lambda>val. \<not> (0 \<le> val \<and> val \<le> 255)) bg_color of
                   Some val \<Rightarrow> Inl (''Color value must be between 0 and 255, got: '' @ str_int val)
                 | None \<Rightarrow> Inr (bg_color ! 0, bg_color ! 1, bg_color ! 2))))"

text \<open>
  The options as \<^verbatim>\<open>argparse\<close> delivers them (the quality already an integer), and the
  namespace \<^verbatim>\<open>parse_arguments\<close> returns, its background replaced by the colour.
\<close>

record argv =
  argv_input :: string
  argv_output :: string
  argv_quality :: int
  argv_recursive :: bool
  argv_background :: string

record args =
  args_input :: string
  args_output :: string
  args_quality :: int
  args_recursive :: bool
  args_background :: "int \<times> int \<times> int"

text \<open>\<open>Inl\<close> is the message given to \<^verbatim>\<open>parser.error\<close>, which ends the process.\<close>

definition parse_arguments :: "fs \<Rightarrow> argv \<Rightarrow> string + args" where
  "parse_arguments fs a =
     (if \<not> isdir fs (argv_input a) then
        Inl (''Input directory does not exist: '' @ argv_input a)
      else if \<not> (1 \<le> argv_quality a \<and> argv_quality a \<le> 100) then
        Inl (''Quality must be between 1 and 100, got: '' @ str_int (argv_quality a))
      else (case parse_background (argv_background a) of
              Inl e \<Rightarrow>
                Inl (''Invalid background color format '' @ py_repr (argv_background a) @ '': '' @ e
                     @ ''. Use format: R,G,B (e.g., 255,255,255)'')
            | Inr bg_color \<Rightarrow>
                Inr \<lparr>args_input = argv_input a, args_output = argv_output a,
                     args_quality = argv_quality a, args_recursive = argv_recursive a,
                     args_background = bg_color\<rparr>))"

text \<open>
  The validation as the specification words it: exactly three comma-separated
  integers, each in \<open>[0, 255]\<close>.
\<close>

definition in_byte_range :: "int \<Rightarrow> bool" where
  "in_byte_range v = (0 \<le> v \<and> v \<le> 255)"

definition spec_background :: "string \<Rightarrow> (int \<times> int \<times> int) option" where
  "spec_background s =
     (case split (CHR '','') s of
        [x, y, z] \<Rightarrow>
          (case (py_int x, py_int y, py_int z) of
             (Some r, Some g, Some b) \<Rightarrow>
               if in_byte_range r \<and> in_byte_range g \<and> in_byte_range b then Some (r, g, b) else None
           | _ \<Rightarrow> None)
      | _ \<Rightarrow> None)"

subsection \<open>The directory walker (\<^verbatim>\<open>process_directory\<close>)\<close>

text \<open>
  The state of the loop: the two counters, the file system, what has been printed or
  handed to the callback, and (for the statements below) every call of the converter
  so far: its input path, its output path and what it returned.
\<close>

record walk =
  converted_count :: nat
  skipped_count :: nat
  walk_fs :: fs
  walk_out :: "event list"
  walk_tasks :: "(path \<times> path \<times> bool) list"

text \<open>One turn of the loop; \<open>Inl\<close> is an exception that leaves the function.\<close>

definition process_file ::
  "imaging \<Rightarrow> path \<Rightarrow> path \<Rightarrow> int \<Rightarrow> int \<times> int \<times> int \<Rightarrow> callback option \<Rightarrow> path \<Rightarrow> walk
     \<Rightarrow> exn \<times> walk + walk" where
  "process_file lib input_path output_path quality bg_color progress_callback file_path w =
     (if is_dir (walk_fs w) file_path then Inr w
      else if lower (path_suffix file_path) \<noteq> ''.png'' then
        (let msg = ''Warning: Skipping non-PNG file: '' @ str_path file_path
         in Inr (w\<lparr>walk_out := walk_out w @
                      (case progress_callback of Some cb \<Rightarrow> cb msg False | None \<Rightarrow> [Print msg]),
                    skipped_count := skipped_count w + 1\<rparr>))
      else
        (case relative_to file_path input_path of
           None \<Rightarrow> Inl (ValueError (str_path file_path @ '' is not in the subpath of ''
                                     @ str_path input_path), w)
         | Some relative_path \<Rightarrow>
             (case with_suffix relative_path ''.jpg'' of
                None \<Rightarrow> Inl (ValueError (str_path relative_path @ '' has an empty name''), w)
              | Some renamed \<Rightarrow>
                  (let output_file = output_path @ renamed;
                       msg = ''Converting: '' @ path_name file_path @ '' -> '' @ path_name output_file;
                       w1 = w\<lparr>walk_out := walk_out w @
                               (case progress_callback of Some cb \<Rightarrow> cb msg False | None \<Rightarrow> [Print msg])\<rparr>
                   in (case convert_image_with_callback lib (walk_fs w1) (str_path file_path)
                              (str_path output_file) quality bg_color progress_callback of
                         (ok, fs1, out) \<Rightarrow>
                           (let w2 = w1\<lparr>walk_fs := fs1, walk_out := walk_out w1 @ out,
                                       walk_tasks := walk_tasks w1 @ [(file_path, output_file, ok)]\<rparr>
                            in if ok then Inr (w2\<lparr>converted_count := converted_count w2 + 1\<rparr>)
                               else Inr (w2\<lparr>skipped_count := skipped_count w2 + 1\<rparr>)))))))"

fun process_files ::
  "imaging \<Rightarrow> path \<Rightarrow> path \<Rightarrow> int \<Rightarrow> int \<times> int \<times> int \<Rightarrow> callback option \<Rightarrow> path list \<Rightarrow> walk
     \<Rightarrow> exn \<times> walk + walk" where
  "process_files lib input_path output_path quality bg_color progress_callback [] w = Inr w"
| "process_files lib input_path output_path quality bg_color progress_callback (file_path # files) w =
     (case process_file lib input_path output_path quality bg_color progress_callback file_path w of
        Inl ew \<Rightarrow> Inl ew
      | Inr w1 \<Rightarrow>
          process_files lib input_path output_path quality bg_color progress_callback files w1)"

text \<open>The list \<^verbatim>\<open>files\<close> the walker builds before its loop.\<close>

definition list_files :: "fs \<Rightarrow> path \<Rightarrow> bool \<Rightarrow> path list" where
  "list_files fs input_path recursive =
     (if recursive then rglob_star fs input_path else glob_star fs input_path)"

definition process_directory ::
  "imaging \<Rightarrow> fs \<Rightarrow> string \<Rightarrow> string \<Rightarrow> int \<Rightarrow> bool \<Rightarrow> int \<times> int \<times> int \<Rightarrow> callback option
     \<Rightarrow> exn \<times> walk + walk" where
  "process_directory lib fs input_dir output_dir quality recursive bg_color progress_callback =
     (let input_path = resolve input_dir;
          output_path = resolve output_dir
      in (case path_mkdir fs output_path of
            (fs1, Some e) \<Rightarrow>
              Inl (e, \<lparr>converted_count = 0, skipped_count = 0, walk_fs = fs1, walk_out = [],
                       walk_tasks = []\<rparr>)
          | (fs1, None) \<Rightarrow>
              (let files = list_files fs1 input_path recursive
               in process_files lib input_path output_path quality bg_color progress_callback files
                    \<lparr>converted_count = 0, skipped_count = 0, walk_fs = fs1, walk_out = [],
                     walk_tasks = []\<rparr>)))"

subsection \<open>The command line (\<^verbatim>\<open>main\<close>)\<close>

definition str_tuple3 :: "int \<times> int \<times> int \<Rightarrow> string" where
  "str_tuple3 t =
     (case t of (r, g, b) \<Rightarrow> ''('' @ str_int r @ '', '' @ str_int g @ '', '' @ str_int b @ '')'')"

definition exit_code :: "nat \<Rightarrow> nat \<Rightarrow> int" where
  "exit_code converted skipped = (if converted > 0 \<or> skipped = 0 then 0 else 1)"

text \<open>
  The exit status, the file system and the output of one run. \<^verbatim>\<open>parser.error\<close> ends
  the process with status 2 (its usage lines are left out); an exception that leaves
  \<^verbatim>\<open>process_directory\<close> ends it with status 1 and a traceback.
\<close>

definition main :: "imaging \<Rightarrow> fs \<Rightarrow> argv \<Rightarrow> int \<times> fs \<times> event list" where
  "main lib fs a =
     (case parse_arguments fs a of
        Inl msg \<Rightarrow> (2, fs, [PrintErr (''error: '' @ msg)])
      | Inr ns \<Rightarrow>
          (let header =
                 [Print ''Starting PNG to JPEG conversion...'',
                  Print (''Input directory: '' @ args_input ns),
                  Print (''Output directory: '' @ args_output ns),
                  Print (''Quality: '' @ str_int (args_quality ns)),
                  Print (''Recursive: '' @ str_bool (args_recursive ns)),
                  Print (''Background color: RGB'' @ str_tuple3 (args_background ns)),
                  Print (replicate 50 (CHR ''-''))]
           in (case process_directory lib fs (args_input ns) (args_output ns) (args_quality ns)
                      (args_recursive ns) (args_background ns) None of
                 Inl (e, w) \<Rightarrow> (1, walk_fs w, header @ walk_out w @ [PrintErr (exn_str e)])
               | Inr w \<Rightarrow>
                   (exit_code (converted_count w) (skipped_count w), walk_fs w,
                    header @ walk_out w @
                    [Print (replicate 50 (CHR ''-'')),
                     Print (''Converted '' @ str_nat (converted_count w) @ '' files. ''
                            @ str_nat (skipped_count w) @ '' files skipped.'')]))))"

subsection \<open>The window (\<^verbatim>\<open>png2jpg_gui.py\<close>)\<close>

text \<open>\<^verbatim>\<open>needle in s\<close> on strings.\<close>

definition contains :: "string \<Rightarrow> string \<Rightarrow> bool" where
  "contains needle s = list_ex (prefix needle) (suffixes s)"

definition parse_bg_color :: "string \<Rightarrow> string + int \<times> int \<times> int" where
  "parse_bg_color color_str =
     (case
        (let parts = split (CHR '','') color_str in
         if length parts \<noteq> 3 then Inl ''Background color must have exactly 3 values (R,G,B)''
         else (case ints_of parts of
                 Inl m \<Rightarrow> Inl m
               | Inr rgb \<Rightarrow>
                   (case find (\<lambda>val. \<not> (0 \<le> val \<and> val \<le> 255)) rgb of
                      Some val \<Rightarrow> Inl (''Color values must be between 0 and 255, got: '' @ str_int val)
                    | None \<Rightarrow> Inr (rgb ! 0, rgb ! 1, rgb ! 2))))
      of
        Inl e \<Rightarrow>
          (if contains ''invalid literal'' e then
             Inl ''Background color must be three integers separated by commas (e.g., 255,255,255)''
           else Inl e)
      | Inr rgb \<Rightarrow> Inr rgb)"

text \<open>The variables of the form that the worker reads.\<close>

record gui =
  var_input_path :: string
  var_output_path :: string
  var_quality :: int
  var_recursive :: bool
  var_bg_option :: string
  var_custom_bg :: string

definition get_bg_color :: "gui \<Rightarrow> string + int \<times> int \<times> int" where
  "get_bg_color g =
     (if var_bg_option g = ''white'' then Inr (255, 255, 255)
      else if var_bg_option g = ''black'' then Inr (0, 0, 0)
      else parse_bg_color (var_custom_bg g))"

text \<open>
  \<^verbatim>\<open>log_message\<close> writes to the text widget in the thread that calls it;
  \<^verbatim>\<open>progress_callback\<close> queues that call for the event loop instead.
\<close>

definition log_message :: "string \<Rightarrow> bool \<Rightarrow> event list" where
  "log_message message is_error = [Widget (LogMessage message is_error)]"

definition gui_progress_callback :: callback where
  "gui_progress_callback message is_error = [After (LogMessage message is_error)]"

text \<open>
  \<^verbatim>\<open>run_conversion\<close>, the target of the worker thread: the file system it leaves and
  what the worker thread did, in order.
\<close>

definition run_conversion :: "imaging \<Rightarrow> fs \<Rightarrow> gui \<Rightarrow> fs \<times> event list" where
  "run_conversion lib fs g =
     (let input_dir = var_input_path g;
          output_dir = var_output_path g;
          quality = var_quality g;
          recursive = var_recursive g
      in (case get_bg_color g of
            Inl m \<Rightarrow>
              (fs, log_message (''Error during conversion: '' @ m) True @ [After ConversionComplete])
          | Inr bg_color \<Rightarrow>
              (let started =
                     log_message (''Input: '' @ input_dir) False
                     @ log_message (''Output: '' @ output_dir) False
                     @ log_message (''Quality: '' @ str_int quality) False
                     @ log_message (''Recursive: '' @ str_bool recursive) False
                     @ log_message (''Background: RGB'' @ str_tuple3 bg_color) False
                     @ log_message (replicate 40 (CHR ''-'')) False
               in (case process_directory lib fs input_dir output_dir quality recursive bg_color
                          (Some gui_progress_callback) of
                     Inl (e, w) \<Rightarrow>
                       (walk_fs w,
                        started @ walk_out w
                        @ log_message (''Error during conversion: '' @ exn_str e) True
                        @ [After ConversionComplete])
                   | Inr w \<Rightarrow>
                       (walk_fs w,
                        started @ walk_out w
                        @ log_message (replicate 40 (CHR ''-'')) False
                        @ log_message (''Complete! Converted '' @ str_nat (converted_count w)
                                       @ '' files. '' @ str_nat (skipped_count w) @ '' skipped.'') False
                        @ [After ConversionComplete])))))"

subsection \<open>Notions of the specification\<close>

text \<open>
  The opacity of each pixel of an image that has an alpha channel or is
  palette-indexed: 0 is fully transparent, 255 fully opaque.
\<close>

definition alpha_channel :: "image \<Rightarrow> nat list" where
  "alpha_channel img =
     (case im_data img of
        PixRGBA px \<Rightarrow> map (\<lambda>(r, g, b, a). a) px
      | PixLA px \<Rightarrow> map (\<lambda>(l, a). a) px
      | PixP idx pal t \<Rightarrow> map (palette_alpha t) idx
      | _ \<Rightarrow> [])"

text \<open>
  One file system continues another: what was there is still there, a directory is
  still a directory and a file is still a file.
\<close>

definition continues :: "fs \<Rightarrow> fs \<Rightarrow> bool" where
  "continues fs fs1 =
     (\<forall>p. case map_of fs p of
            None \<Rightarrow> True
          | Some DirE \<Rightarrow> map_of fs1 p = Some DirE
          | Some (FileE b) \<Rightarrow> (\<exists>b1. map_of fs1 p = Some (FileE b1)))"

text \<open>One file system is another with nothing changed but directories added.\<close>

definition grown :: "fs \<Rightarrow> fs \<Rightarrow> bool" where
  "grown fs fs1 =
     (\<forall>p. map_of fs1 p = map_of fs p \<or> (map_of fs p = None \<and> map_of fs1 p = Some DirE))"

text \<open>The output path the walker derives for a file below the input root.\<close>

definition mirrored :: "path \<Rightarrow> path \<Rightarrow> path \<Rightarrow> path" where
  "mirrored input_path output_path file_path =
     (let rel = drop (length input_path) file_path;
          name = last rel
      in output_path @ butlast rel @ [take (length name - length (name_suffix name)) name @ ''.jpg''])"

definition is_png :: "path \<Rightarrow> bool" where
  "is_png p = (lower (path_suffix p) = ''.png'')"

text \<open>
  Where a message goes: to the callback when there is one, else to standard error
  when it is an error and to standard output when it is not.
\<close>

definition sink :: "callback option \<Rightarrow> string \<Rightarrow> bool \<Rightarrow> event list" where
  "sink progress_callback msg is_error =
     (case progress_callback of
        Some cb \<Rightarrow> cb msg is_error
      | None \<Rightarrow> [if is_error then PrintErr msg else Print msg])"

text \<open>
  What a run of the loop over \<open>files\<close> from the state \<open>w\<close> to the state \<open>w1\<close>
  amounts to: the files that are no directories and end in \<^verbatim>\<open>.png\<close> were handed to the
  converter, in order, each with its mirrored output path; the converted count grew by
  the calls that succeeded; the skipped count grew by the other files that are no
  directories and by the calls that failed; each of those other files was reported;
  the file system was continued.
\<close>

definition walked :: "path \<Rightarrow> path \<Rightarrow> callback option \<Rightarrow> path list \<Rightarrow> walk \<Rightarrow> walk \<Rightarrow> bool" where
  "walked input_path output_path progress_callback files w w1 =
     (\<exists>tasks evs.
        walk_tasks w1 = walk_tasks w @ tasks
      \<and> map fst tasks = filter (\<lambda>f. \<not> is_dir (walk_fs w) f \<and> is_png f) files
      \<and> map (\<lambda>t. fst (snd t)) tasks = map (mirrored input_path output_path) (map fst tasks)
      \<and> converted_count w1 = converted_count w + length (filter (\<lambda>t. snd (snd t)) tasks)
      \<and> skipped_count w1 =
          skipped_count w + length (filter (\<lambda>f. \<not> is_dir (walk_fs w) f \<and> \<not> is_png f) files)
          + length (filter (\<lambda>t. \<not> snd (snd t)) tasks)
      \<and> walk_out w1 = walk_out w @ evs
      \<and> list_all (\<lambda>f. is_dir (walk_fs w) f \<or> is_png f
             \<or> set (sink progress_callback (''Warning: Skipping non-PNG file: '' @ str_path f) False)
                 \<subseteq> set evs) files
      \<and> continues (walk_fs w) (walk_fs w1))"

subsection \<open>Sample inputs\<close>

definition demo_image :: image where
  "demo_image = \<lparr>im_size = (2, 1), im_data = PixRGBA [(10, 20, 30, 0), (200, 100, 50, 255)]\<rparr>"

text \<open>
  A library that decodes the one-byte file \<open>[1]\<close> to \<open>demo_image\<close>, rejects every
  other file, and writes an RGB image as its bytes.
\<close>

definition demo_lib :: imaging where
  "demo_lib =
     \<lparr>decode = (\<lambda>b. if b = [1] then Inr demo_image else Inl ''cannot identify image file''),
      convert_rgb = (\<lambda>img. Inl ''conversion not supported''),
      jpeg_save = (\<lambda>img q. case im_data img of
                      PixRGB px \<Rightarrow> Inr (concat (map (\<lambda>(r, g, b). [r, g, b]) px))
                    | _ \<Rightarrow> Inl (''cannot write mode as JPEG'', None))\<rparr>"

text \<open>The same library with an encoder that fails and leaves the path as it was.\<close>

definition failing_lib :: imaging where
  "failing_lib = demo_lib\<lparr>jpeg_save := (\<lambda>img q. Inl (''encoder error'', None))\<rparr>"

text \<open>
  The same library with an encoder that fails after the output file has been opened
  for writing, which leaves the file empty.
\<close>

definition truncating_lib :: imaging where
  "truncating_lib = demo_lib\<lparr>jpeg_save := (\<lambda>img q. Inl (''encoder error'', Some []))\<rparr>"

definition demo_fs :: fs where
  "demo_fs =
     [([''in''], DirE), ([''in'', ''a.png''], FileE [1]), ([''in'', ''notes.txt''], FileE [2]),
      ([''in'', ''bad.png''], FileE []), ([''in'', ''sub''], DirE),
      ([''in'', ''sub'', ''c.PNG''], FileE [1])]"

text \<open>The sample tree after an earlier run has written \<^verbatim>\<open>out/a.jpg\<close>.\<close>

definition rerun_fs :: fs where
  "rerun_fs = demo_fs @ [([''out''], DirE), ([''out'', ''a.jpg''], FileE [7, 7, 7])]"

definition bad_fs :: fs where
  "bad_fs = [([''in''], DirE), ([''in'', ''bad.png''], FileE [])]"

definition demo_argv :: argv where
  "demo_argv = \<lparr>argv_input = ''in'', argv_output = ''out'', argv_quality = 85,
      argv_recursive = True, argv_background = ''255,255,255''\<rparr>"

definition demo_gui :: gui where
  "demo_gui = \<lparr>var_input_path = ''in'', var_output_path = ''out'', var_quality = 85,
      var_recursive = False, var_bg_option = ''white'', var_custom_bg = ''255,255,255''\<rparr>"

section \<open>Properties\<close>

subsection \<open>Integers and colours\<close>

text \<open>
  \<^verbatim>\<open>strip\<close> is idempotent, so \<^verbatim>\<open>int(x.strip())\<close> and \<^verbatim>\<open>int(x)\<close> agree; the range check
  on three values; and the parser of the command line against the wording of the
  specification.
\<close>

lemma dropWhile_fixed_butlast:
  assumes "dropWhile P u = u"
  shows "dropWhile P (rev (dropWhile P (rev u))) = rev (dropWhile P (rev u))"
proof (cases "rev (dropWhile P (rev u))")
  case Nil
  show ?thesis unfolding Nil by simp
next
  case (Cons x xs)
  have "rev u = takeWhile P (rev u) @ dropWhile P (rev u)" by simp
  then have "u = rev (dropWhile P (rev u)) @ rev (takeWhile P (rev u))"
    by (metis rev_append rev_rev_ident)
  with Cons have u: "u = x # (xs @ rev (takeWhile P (rev u)))" by simp
  have "\<not> P x"
  proof
    assume "P x"
    then have "dropWhile P u \<noteq> u"
      using u by (metis dropWhile.simps(2) length_dropWhile_le impossible_Cons le_refl)
    with assms show False by simp
  qed
  with Cons show ?thesis by simp
qed
lemma strip_strip: "strip (strip s) = strip s"
proof -
  let ?u = "dropWhile is_space s"
  have u: "dropWhile is_space ?u = ?u" by (simp add: dropWhile_idem)
  have "dropWhile is_space (strip s) = strip s"
    unfolding strip_def using dropWhile_fixed_butlast [OF u] .
  then show ?thesis
    by (simp add: strip_def dropWhile_idem)
qed
lemma py_int_strip: "py_int (strip s) = py_int s"
  by (simp add: py_int_def strip_strip)
lemma ints_of_those:
  "ints_of xs = Inr vs \<longleftrightarrow> map py_int xs = map Some vs"
proof (induction xs arbitrary: vs)
  case Nil
  then show ?case by auto
next
  case (Cons x xs)
  show ?case
  proof (cases "py_int x")
    case None
    then show ?thesis by (auto simp: py_int_strip)
  next
    case (Some v)
    show ?thesis
    proof (cases "ints_of xs")
      case (Inl m)
      with Cons.IH have "\<And>ws. map py_int xs \<noteq> map Some ws" by simp
      with Some Inl show ?thesis by (auto simp: py_int_strip)
    next
      case (Inr ws)
      with Cons.IH [of ws] have "map py_int xs = map Some ws" by simp
      with Some have b: "map py_int (x # xs) = map Some (v # ws)" by simp
      have a: "ints_of (x # xs) = Inr (v # ws)"
        using Some Inr by (simp add: py_int_strip)
      have "map Some (v # ws) = map Some vs \<longleftrightarrow> v # ws = vs"
        by (rule inj_map_eq_map) simp
      then show ?thesis
        unfolding a b by auto
    qed
  qed
qed
lemma find_out_of_range_three:
  "find (\<lambda>val. \<not> (0 \<le> val \<and> val \<le> 255)) [r, g, b] = None
     \<longleftrightarrow> in_byte_range r \<and> in_byte_range g \<and> in_byte_range b"
  by (auto simp: in_byte_range_def)
lemma length_three: "length xs = 3 \<longleftrightarrow> (\<exists>x y z. xs = [x, y, z])"
  by (auto simp: length_Suc_conv numeral_3_eq_3)
lemma parse_background_spec:
  "parse_background s = Inr t \<longleftrightarrow> spec_background s = Some t"
proof (cases "length (split (CHR '','') s) = 3")
  case False
  then have "spec_background s = None"
    by (auto simp: spec_background_def length_three split: list.splits)
  with False show ?thesis by (simp add: parse_background_def)
next
  case True
  then obtain x y z where xyz: "split (CHR '','') s = [x, y, z]"
    by (auto simp: length_three)
  show ?thesis
  proof (cases "ints_of [x, y, z]")
    case (Inl m)
    then have no: "\<And>vs. map py_int [x, y, z] \<noteq> map Some vs"
      using ints_of_those [of "[x, y, z]"] by simp
    have "\<not> (\<exists>r g b. py_int x = Some r \<and> py_int y = Some g \<and> py_int z = Some b)"
    proof
      assume "\<exists>r g b. py_int x = Some r \<and> py_int y = Some g \<and> py_int z = Some b"
      then obtain r g b where "py_int x = Some r" "py_int y = Some g" "py_int z = Some b"
        by blast
      then have "map py_int [x, y, z] = map Some [r, g, b]" by simp
      with no show False by blast
    qed
    then have "spec_background s = None"
      by (auto simp: spec_background_def xyz split: option.splits)
    with Inl xyz show ?thesis by (simp add: parse_background_def)
  next
    case (Inr vs)
    then have m: "map py_int [x, y, z] = map Some vs"
      using ints_of_those [of "[x, y, z]" vs] by simp
    then obtain r g b where vs: "vs = [r, g, b]"
      and p: "py_int x = Some r" "py_int y = Some g" "py_int z = Some b"
      by (auto simp: map_eq_Cons_conv)
    show ?thesis
    proof (cases "in_byte_range r \<and> in_byte_range g \<and> in_byte_range b")
      case True
      then have "find (\<lambda>val. \<not> (0 \<le> val \<and> val \<le> 255)) vs = None"
        unfolding vs find_out_of_range_three by blast
      with True Inr xyz p vs show ?thesis
        by (auto simp: parse_background_def spec_background_def simp del: ints_of.simps find.simps)
    next
      case False
      then have "find (\<lambda>val. \<not> (0 \<le> val \<and> val \<le> 255)) vs \<noteq> None"
        unfolding vs find_out_of_range_three by blast
      with False Inr xyz p vs show ?thesis
        by (auto simp: parse_background_def spec_background_def simp del: ints_of.simps find.simps)
    qed
  qed
qed
lemma spec_background_total:
  "parse_background s = Inl e \<Longrightarrow> spec_background s = None"
proof (cases "spec_background s")
  case (Some t)
  then have "parse_background s = Inr t" by (simp add: parse_background_spec)
  moreover assume "parse_background s = Inl e"
  ultimately show ?thesis by simp
qed simp

subsection \<open>Pixels\<close>

text \<open>
  The 8-bit blend keeps the destination under mask 0 and copies the source under mask
  255; pasting keeps the size of the canvas and blends pixel by pixel.
\<close>

lemma div255_scaled: "x \<le> 255 \<Longrightarrow> div255 (x * 255) = x"
  unfolding div255_def Let_def by arith
lemma blend8_transparent: "out \<le> 255 \<Longrightarrow> blend8 0 out inp = out"
  by (simp add: blend8_def div255_scaled)
lemma blend8_opaque: "inp \<le> 255 \<Longrightarrow> blend8 255 out inp = inp"
  by (simp add: blend8_def div255_scaled)
lemma clip8_le: "clip8 v \<le> 255"
  by (simp add: clip8_def)
lemma clip8_in_range: "0 \<le> v \<Longrightarrow> v \<le> 255 \<Longrightarrow> clip8 v = nat v"
  by (simp add: clip8_def)
lemma blend_rgb_transparent:
  "r \<le> 255 \<Longrightarrow> g \<le> 255 \<Longrightarrow> b \<le> 255 \<Longrightarrow> blend_rgb 0 (r, g, b) c = (r, g, b)"
  by (cases c) (simp add: blend8_transparent)
lemma length_paste_mask: "length (paste_mask outs inps ms) = length outs"
  by (induction outs inps ms rule: paste_mask.induct) auto
lemma paste_mask_nth:
  "i < length outs \<Longrightarrow> i < length inps \<Longrightarrow> i < length ms \<Longrightarrow>
   paste_mask outs inps ms ! i = blend_rgb (ms ! i) (outs ! i) (inps ! i)"
proof (induction outs inps ms arbitrary: i rule: paste_mask.induct)
  case (1 out outs inp inps m ms)
  then show ?case by (cases i) auto
qed auto
lemma other_mode_no_alpha: "other_mode_name m \<notin> set [''RGBA'', ''LA'', ''P'', ''RGB'']"
  by (cases m) simp_all
lemma length_rgb_pixels_alpha:
  "mode img \<in> set [''RGBA'', ''LA'', ''P''] \<Longrightarrow>
   length (rgb_pixels (im_data img)) = length (alpha_channel img)"
  using other_mode_no_alpha
  by (cases "im_data img") (auto simp: mode_def alpha_channel_def)
lemma expanded_rgb:
  "(case (case c of (r, g, b) \<Rightarrow> (r, g, b, al)) of (r, g, b, a) \<Rightarrow> (r, g, b)) = c"
  by (cases c) simp
lemma expanded_alpha:
  "(case (case c of (r, g, b) \<Rightarrow> (r, g, b, al)) of (r, g, b, a) \<Rightarrow> a) = (al::nat)"
  by (cases c) simp

text \<open>The branch of the converters for an image with transparency.\<close>

lemma composite_branch:
  assumes "mode img \<in> set [''RGBA'', ''LA'', ''P'']"
  shows "(let background = image_new_rgb (im_size img) bg_color;
              img1 = (if mode img = ''P'' then convert_rgba img else img);
              background1 =
                (if mode img1 = ''RGBA'' then
                   paste background img1 (Some (last_band (im_data img1)))
                 else if mode img1 = ''LA'' then
                   paste background img1 (Some (last_band (im_data img1)))
                 else paste background img1 None)
          in background1)
         = \<lparr>im_size = im_size img,
            im_data = PixRGB (paste_mask
              (replicate (fst (im_size img) * snd (im_size img))
                 (clip8 (fst bg_color), clip8 (fst (snd bg_color)), clip8 (snd (snd bg_color))))
              (rgb_pixels (im_data img)) (alpha_channel img))\<rparr>"
proof (cases "im_data img")
  case (PixRGBA px)
  then show ?thesis
    by (simp add: mode_def image_new_rgb_def paste_def alpha_channel_def split: prod.splits)
next
  case (PixLA px)
  then show ?thesis
    by (simp add: mode_def image_new_rgb_def paste_def alpha_channel_def split: prod.splits)
next
  case (PixP idx pal t)
  then show ?thesis
    by (simp add: mode_def image_new_rgb_def paste_def alpha_channel_def convert_rgba_def
        comp_def expanded_rgb expanded_alpha split: prod.splits)
next
  case (PixRGB px)
  with assms show ?thesis by (simp add: mode_def)
next
  case (PixOther m d)
  with assms other_mode_no_alpha [of m] show ?thesis by (simp add: mode_def)
qed

subsection \<open>Directories and files\<close>

text \<open>
  Creating directories only adds directories; a save changes nothing but the file at
  its path; so the body of a converter adds directories and then, at most, writes the
  output file.
\<close>

lemma map_of_write_file: "map_of (write_file fs p b) q = (if q = p then Some (FileE b) else map_of fs q)"
  by (simp add: write_file_def update_conv')
lemma try_bodies_equal:
  "convert_image_with_callback_try lib fs input_path output_path quality bg_color =
   convert_image_try lib fs input_path output_path quality bg_color"
  unfolding convert_image_with_callback_try_def convert_image_try_def ..
lemma converters_agree:
  "fst (convert_image lib fs input_path output_path quality bg_color) =
     fst (convert_image_with_callback lib fs input_path output_path quality bg_color progress_callback)
   \<and> fst (snd (convert_image lib fs input_path output_path quality bg_color)) =
     fst (snd (convert_image_with_callback lib fs input_path output_path quality bg_color
                 progress_callback))
   \<and> (case convert_image_try lib fs input_path output_path quality bg_color of
        (fs1, None) \<Rightarrow>
          snd (snd (convert_image lib fs input_path output_path quality bg_color)) = []
          \<and> snd (snd (convert_image_with_callback lib fs input_path output_path quality bg_color
                         progress_callback)) = []
      | (fs1, Some e) \<Rightarrow>
          snd (snd (convert_image lib fs input_path output_path quality bg_color)) =
            [PrintErr (''Error converting '' @ input_path @ '': '' @ exn_str e)]
          \<and> snd (snd (convert_image_with_callback lib fs input_path output_path quality bg_color
                         progress_callback)) =
            (case progress_callback of
               Some cb \<Rightarrow> cb (''Error: '' @ basename input_path @ '' - '' @ exn_str e) True
             | None \<Rightarrow> [PrintErr (''Error: '' @ basename input_path @ '' - '' @ exn_str e)]))"
  by (simp add: convert_image_def convert_image_with_callback_def try_bodies_equal Let_def
      split: prod.splits option.splits)
lemma grown_refl: "grown fs fs"
  by (simp add: grown_def)
lemma grown_trans: "grown fs fs1 \<Longrightarrow> grown fs1 fs2 \<Longrightarrow> grown fs fs2"
  unfolding grown_def by metis
lemma grown_append_dir: "map_of fs q = None \<Longrightarrow> grown fs (fs @ [(q, DirE)])"
  by (auto simp: grown_def map_add_def split: option.splits)
lemma mkdirs_from_grown: "mkdirs_from pre ns fs = (fs1, eo) \<Longrightarrow> grown fs fs1"
proof (induction ns arbitrary: pre fs)
  case Nil
  then show ?case by (simp add: grown_refl)
next
  case (Cons n ns)
  show ?case
  proof (cases "map_of fs (pre @ [n])")
    case None
    with Cons.prems have "mkdirs_from (pre @ [n]) ns (fs @ [(pre @ [n], DirE)]) = (fs1, eo)"
      by simp
    then have "grown (fs @ [(pre @ [n], DirE)]) fs1" by (rule Cons.IH)
    with grown_append_dir [OF None] show ?thesis by (rule grown_trans)
  next
    case (Some e)
    show ?thesis
    proof (cases e)
      case (FileE b)
      with Some Cons.prems show ?thesis by (simp add: grown_refl)
    next
      case DirE
      with Some Cons.prems have "mkdirs_from (pre @ [n]) ns fs = (fs1, eo)" by simp
      then show ?thesis by (rule Cons.IH)
    qed
  qed
qed
lemma makedirs_grown: "makedirs fs name = (fs1, eo) \<Longrightarrow> grown fs fs1"
  by (auto simp: makedirs_def grown_refl mkdirs_from_grown split: if_splits)
lemma path_mkdir_grown: "path_mkdir fs p = (fs1, eo) \<Longrightarrow> grown fs fs1"
  by (simp add: path_mkdir_def mkdirs_from_grown)
lemma save_cases:
  assumes "save lib fs img fp q = (fs1, eo)"
  shows "(eo \<noteq> None \<and> fs1 = fs)
       \<or> (\<not> is_dir fs (resolve fp) \<and>
           ((\<exists>b. eo = None \<and> jpeg_save lib img q = Inr b \<and> fs1 = write_file fs (resolve fp) b)
          \<or> (\<exists>m part. eo = Some (ImageError m) \<and> jpeg_save lib img q = Inl (m, Some part)
                \<and> fs1 = write_file fs (resolve fp) part)))"
  using assms
  by (auto simp: save_def Let_def split: if_splits sum.splits option.splits prod.splits)

text \<open>
  A path that names a file resolves to the resolved path of its directory followed by
  its base name, and \<^verbatim>\<open>os.makedirs\<close> on the directory changes nothing at any longer
  path; so what stands at the output path is untouched until the save.
\<close>

lemma split_nonempty: "split sep xs \<noteq> []"
  by (induction xs) (auto split: list.splits)
lemma split_append_sep: "split sep (xs @ sep # ys) = split sep xs @ split sep ys"
proof (induction xs)
  case Nil
  show ?case by simp
next
  case (Cons c xs)
  obtain w ws where w: "split sep xs = w # ws"
    using split_nonempty [of sep xs] by (cases "split sep xs") auto
  with Cons show ?case by simp
qed
lemma split_no_sep: "sep \<notin> set xs \<Longrightarrow> split sep xs = [xs]"
  by (induction xs) auto
lemma resolve_append_slash: "resolve (xs @ CHR ''/'' # ys) = resolve xs @ resolve ys"
  by (simp add: resolve_def split_append_sep)
lemma resolve_empty: "resolve [] = []"
  by (simp add: resolve_def)
lemma resolve_name:
  "CHR ''/'' \<notin> set b \<Longrightarrow> b \<noteq> [] \<Longrightarrow> b \<noteq> ''.'' \<Longrightarrow> resolve b = [b]"
  by (simp add: resolve_def split_no_sep)
lemma resolve_trailing_slashes: "resolve (xs @ replicate k (CHR ''/'')) = resolve xs"
proof (induction k)
  case 0
  show ?case by simp
next
  case (Suc k)
  have "xs @ replicate (Suc k) (CHR ''/'') = (xs @ replicate k (CHR ''/'')) @ CHR ''/'' # []"
    by (simp add: replicate_append_same)
  then show ?case
    using Suc by (simp only: resolve_append_slash resolve_empty) simp
qed
lemma takeWhile_eq_replicate: "takeWhile (\<lambda>c. c = x) ys = replicate (length (takeWhile (\<lambda>c. c = x) ys)) x"
  by (induction ys) auto
lemma rstrip_slashes:
  "\<exists>k. head = rev (dropWhile (\<lambda>c. c = CHR ''/'') (rev head)) @ replicate k (CHR ''/'')"
proof -
  let ?P = "\<lambda>c. c = CHR ''/''"
  have "rev head = takeWhile ?P (rev head) @ dropWhile ?P (rev head)" by simp
  then have "head = rev (dropWhile ?P (rev head)) @ rev (takeWhile ?P (rev head))"
    by (metis rev_append rev_rev_ident)
  moreover have "rev (takeWhile ?P (rev head)) = replicate (length (takeWhile ?P (rev head))) (CHR ''/'')"
    using takeWhile_eq_replicate [of "CHR ''/''" "rev head"] by (metis rev_replicate)
  ultimately show ?thesis by metis
qed
lemma length_dropWhile_rest: "length (dropWhile P xs) = length xs - length (takeWhile P xs)"
  by (induction xs) auto
lemma basename_no_slash: "CHR ''/'' \<notin> set (basename s)"
  using set_takeWhileD [of "CHR ''/''" "\<lambda>c. c \<noteq> CHR ''/''" "rev s"]
  by (auto simp: basename_def)
lemma head_basename:
  "s = take (length s - length (basename s)) s @ basename s"
proof -
  let ?P = "\<lambda>c. c \<noteq> CHR ''/''"
  have "rev s = takeWhile ?P (rev s) @ dropWhile ?P (rev s)" by simp
  then have s: "s = rev (dropWhile ?P (rev s)) @ basename s"
    unfolding basename_def by (metis rev_append rev_rev_ident)
  have "length (rev (dropWhile ?P (rev s))) = length s - length (basename s)"
    by (simp add: basename_def length_dropWhile_rest)
  then have "take (length s - length (basename s)) s = rev (dropWhile ?P (rev s))"
    using s by (metis append_eq_conv_conj)
  with s show ?thesis by simp
qed
lemma head_ends_with_slash:
  assumes "take (length s - length (basename s)) s \<noteq> []"
  shows "\<exists>h. take (length s - length (basename s)) s = h @ [CHR ''/'']"
proof -
  let ?P = "\<lambda>c. c \<noteq> CHR ''/''"
  let ?d = "dropWhile ?P (rev s)"
  have "rev s = takeWhile ?P (rev s) @ ?d" by simp
  then have s: "s = rev ?d @ basename s"
    unfolding basename_def by (metis rev_append rev_rev_ident)
  have "length (rev ?d) = length s - length (basename s)"
    by (simp add: basename_def length_dropWhile_rest)
  then have head: "take (length s - length (basename s)) s = rev ?d"
    using s by (metis append_eq_conv_conj)
  with assms have "?d \<noteq> []" by simp
  then have "hd ?d = CHR ''/''"
    using hd_dropWhile [of ?P "rev s"] by auto
  with \<open>?d \<noteq> []\<close> obtain t where "?d = CHR ''/'' # t"
    by (cases ?d) auto
  then have "rev ?d = rev t @ [CHR ''/'']" by simp
  with head show ?thesis by metis
qed
lemma resolve_dirname:
  "resolve (dirname s) = resolve (take (length s - length (basename s)) s)"
proof -
  let ?head = "take (length s - length (basename s)) s"
  obtain k where "?head = rev (dropWhile (\<lambda>c. c = CHR ''/'') (rev ?head)) @ replicate k (CHR ''/'')"
    using rstrip_slashes by blast
  then have "resolve ?head = resolve (rev (dropWhile (\<lambda>c. c = CHR ''/'') (rev ?head)))"
    by (metis resolve_trailing_slashes)
  then show ?thesis
    by (simp add: dirname_def Let_def)
qed
lemma resolve_file_path:
  assumes "basename s \<noteq> []" and "basename s \<noteq> ''.''"
  shows "resolve s = resolve (dirname s) @ [basename s]"
proof -
  let ?head = "take (length s - length (basename s)) s"
  have s: "s = ?head @ basename s" by (rule head_basename)
  have base: "resolve (basename s) = [basename s]"
    using basename_no_slash assms by (rule resolve_name)
  show ?thesis
  proof (cases "?head = []")
    case True
    with s have "s = basename s" by simp
    with base True show ?thesis
      by (simp add: resolve_dirname resolve_empty)
  next
    case False
    then obtain h where h: "?head = h @ [CHR ''/'']"
      using head_ends_with_slash by blast
    with s have "s = h @ CHR ''/'' # basename s" by simp
    then have "resolve s = resolve h @ resolve (basename s)"
      by (metis resolve_append_slash)
    moreover have "resolve ?head = resolve h"
      using h resolve_append_slash [of h "[]"] by (simp add: resolve_empty)
    ultimately show ?thesis
      using base by (simp add: resolve_dirname)
  qed
qed
lemma map_of_append_other:
  "p \<noteq> q \<Longrightarrow> map_of (fs @ [(q, e)]) p = map_of fs p"
  by (auto simp: map_add_def split: option.splits)
lemma mkdirs_from_deeper:
  "mkdirs_from pre ns fs = (fs1, eo) \<Longrightarrow> length pre + length ns < length p \<Longrightarrow>
   map_of fs1 p = map_of fs p"
proof (induction ns arbitrary: pre fs)
  case Nil
  then show ?case by simp
next
  case (Cons n ns)
  from Cons.prems(2) have ne: "p \<noteq> pre @ [n]" by auto
  from Cons.prems(2) have deeper: "length (pre @ [n]) + length ns < length p" by simp
  show ?case
  proof (cases "map_of fs (pre @ [n])")
    case None
    with Cons.prems(1) have "mkdirs_from (pre @ [n]) ns (fs @ [(pre @ [n], DirE)]) = (fs1, eo)"
      by simp
    from Cons.IH [OF this deeper] show ?thesis
      using map_of_append_other [OF ne] by simp
  next
    case (Some e)
    show ?thesis
    proof (cases e)
      case (FileE b)
      with Some Cons.prems(1) show ?thesis by simp
    next
      case DirE
      with Some Cons.prems(1) have "mkdirs_from (pre @ [n]) ns fs = (fs1, eo)" by simp
      from Cons.IH [OF this deeper] show ?thesis .
    qed
  qed
qed
lemma makedirs_deeper:
  "makedirs fs name = (fs1, eo) \<Longrightarrow> length (resolve name) < length p \<Longrightarrow>
   map_of fs1 p = map_of fs p"
  by (auto simp: makedirs_def split: if_splits dest: mkdirs_from_deeper)
lemma convert_try_cases:
  assumes "convert_image_try lib fs input_path output_path quality bg_color = (fs2, eo)"
  shows "\<exists>fs1. grown fs fs1 \<and>
      (\<forall>p. length (resolve (dirname output_path)) < length p \<longrightarrow> map_of fs1 p = map_of fs p) \<and>
      ((eo \<noteq> None \<and> fs2 = fs1)
       \<or> (\<not> is_dir fs1 (resolve output_path) \<and>
           ((\<exists>img b. eo = None \<and> jpeg_save lib img quality = Inr b
                \<and> fs2 = write_file fs1 (resolve output_path) b)
          \<or> (\<exists>img m part. eo = Some (ImageError m) \<and> jpeg_save lib img quality = Inl (m, Some part)
                \<and> fs2 = write_file fs1 (resolve output_path) part))))"
proof (cases "image_open lib fs input_path")
  case (Inl e)
  with assms have "fs2 = fs" "eo = Some e" by (simp_all add: convert_image_try_def)
  then show ?thesis using grown_refl by blast
next
  case opened: (Inr img)
  let ?rec = "(if mode img \<in> set [''RGBA'', ''LA'', ''P''] then
                (let background = image_new_rgb (im_size img) bg_color;
                     img1 = (if mode img = ''P'' then convert_rgba img else img);
                     background1 =
                       (if mode img1 = ''RGBA'' then
                          paste background img1 (Some (last_band (im_data img1)))
                        else if mode img1 = ''LA'' then
                          paste background img1 (Some (last_band (im_data img1)))
                        else paste background img1 None)
                 in Inr background1)
              else if mode img \<noteq> ''RGB'' then convert_rgb lib img
              else Inr img)"
  have body: "convert_image_try lib fs input_path output_path quality bg_color =
      (case ?rec of
         Inl m \<Rightarrow> (fs, Some (ImageError m))
       | Inr img2 \<Rightarrow>
           (case makedirs fs (dirname output_path) of
              (fs1, Some e) \<Rightarrow> (fs1, Some e)
            | (fs1, None) \<Rightarrow> save lib fs1 img2 output_path quality))"
    unfolding convert_image_try_def opened by simp
  show ?thesis
  proof (cases ?rec)
    case (Inl m)
    with body assms have "fs2 = fs" "eo = Some (ImageError m)" by simp_all
    then show ?thesis using grown_refl by blast
  next
    case (Inr img2)
    obtain fs1 mo where mk: "makedirs fs (dirname output_path) = (fs1, mo)"
      by (cases "makedirs fs (dirname output_path)")
    then have g: "grown fs fs1" by (rule makedirs_grown)
    have d: "\<forall>p. length (resolve (dirname output_path)) < length p \<longrightarrow> map_of fs1 p = map_of fs p"
      using makedirs_deeper [OF mk] by blast
    show ?thesis
    proof (cases mo)
      case (Some e)
      with body Inr mk assms have "fs2 = fs1" "eo = Some e" by simp_all
      with g d show ?thesis by blast
    next
      case None
      with body Inr mk assms have "save lib fs1 img2 output_path quality = (fs2, eo)" by simp
      from save_cases [OF this] g d show ?thesis by blast
    qed
  qed
qed
lemma continues_refl: "continues fs fs"
  by (auto simp: continues_def split: option.splits entry.splits)
lemma continues_trans:
  assumes "continues fs fs1" and "continues fs1 fs2"
  shows "continues fs fs2"
  unfolding continues_def
proof
  fix p
  from assms have a: "case map_of fs p of None \<Rightarrow> True
      | Some DirE \<Rightarrow> map_of fs1 p = Some DirE
      | Some (FileE b) \<Rightarrow> (\<exists>b1. map_of fs1 p = Some (FileE b1))"
    and b: "case map_of fs1 p of None \<Rightarrow> True
      | Some DirE \<Rightarrow> map_of fs2 p = Some DirE
      | Some (FileE b) \<Rightarrow> (\<exists>b1. map_of fs2 p = Some (FileE b1))"
    by (simp_all add: continues_def)
  then show "case map_of fs p of None \<Rightarrow> True
      | Some DirE \<Rightarrow> map_of fs2 p = Some DirE
      | Some (FileE b) \<Rightarrow> (\<exists>b1. map_of fs2 p = Some (FileE b1))"
    by (auto split: option.splits entry.splits)
qed
lemma grown_continues: "grown fs fs1 \<Longrightarrow> continues fs fs1"
  unfolding grown_def continues_def
  by (auto split: option.splits entry.splits) (metis option.distinct(1) option.inject entry.distinct(1))+
lemma write_continues: "\<not> is_dir fs p \<Longrightarrow> continues fs (write_file fs p b)"
  by (auto simp: continues_def map_of_write_file is_dir_def split: option.splits entry.splits)
lemma convert_continues:
  assumes "convert_image_with_callback lib fs input_path output_path quality bg_color
             progress_callback = (ok, fs2, out)"
  shows "continues fs fs2"
proof -
  obtain fs3 eo where body3:
    "convert_image_try lib fs input_path output_path quality bg_color = (fs3, eo)"
    by (cases "convert_image_try lib fs input_path output_path quality bg_color")
  have "fs2 = fs3"
    using assms unfolding convert_image_with_callback_def try_bodies_equal body3
    by (cases eo) (simp_all add: Let_def)
  with body3 have "convert_image_try lib fs input_path output_path quality bg_color = (fs2, eo)"
    by simp
  from convert_try_cases [OF this] obtain fs1 where g: "grown fs fs1"
    and c: "fs2 = fs1 \<or> (\<not> is_dir fs1 (resolve output_path)
              \<and> (\<exists>b. fs2 = write_file fs1 (resolve output_path) b))"
    by blast
  from c have "continues fs1 fs2"
    using continues_refl write_continues by blast
  with grown_continues [OF g] show ?thesis by (rule continues_trans)
qed
lemma continues_present:
  "continues fs fs1 \<Longrightarrow> map_of fs p \<noteq> None \<Longrightarrow> map_of fs1 p \<noteq> None"
  unfolding continues_def
  by (erule allE [of _ p]) (auto split: option.splits entry.splits)
lemma continues_is_dir:
  "continues fs fs1 \<Longrightarrow> map_of fs p \<noteq> None \<Longrightarrow> is_dir fs1 p = is_dir fs p"
  unfolding continues_def is_dir_def
  by (erule allE [of _ p]) (auto split: option.splits entry.splits)

subsection \<open>Paths\<close>

lemma lower_png_nonempty: "lower s = ''.png'' \<Longrightarrow> s \<noteq> []"
  by (auto simp: lower_def)
lemma name_suffix_empty: "name_suffix [] = []"
  by (simp add: name_suffix_def)
lemma is_png_name: "is_png f \<Longrightarrow> name_suffix (path_name f) \<noteq> [] \<and> path_name f \<noteq> []"
  using lower_png_nonempty name_suffix_empty
  by (fastforce simp: is_png_def path_suffix_def)
lemma strict_prefix_drop:
  assumes "strict_prefix d f"
  shows "relative_to f d = Some (drop (length d) f)" and "drop (length d) f \<noteq> []"
    and "path_name (drop (length d) f) = path_name f"
proof -
  from assms obtain r where f: "f = d @ r" and r: "r \<noteq> []"
    by (auto simp: strict_prefix_def prefix_def)
  show "relative_to f d = Some (drop (length d) f)"
    using assms by (simp add: relative_to_def strict_prefix_def)
  show "drop (length d) f \<noteq> []" using f r by simp
  show "path_name (drop (length d) f) = path_name f"
    using f r by (simp add: path_name_def)
qed
lemma with_suffix_mirrored:
  assumes "is_png f" and "strict_prefix input_path f"
  shows "\<exists>renamed. with_suffix (drop (length input_path) f) ''.jpg'' = Some renamed
           \<and> output_path @ renamed = mirrored input_path output_path f"
proof -
  let ?rel = "drop (length input_path) f"
  from strict_prefix_drop [OF assms(2)] have rel: "?rel \<noteq> []"
    and name: "path_name ?rel = path_name f" by simp_all
  from is_png_name [OF assms(1)] name have n: "name_suffix (path_name ?rel) \<noteq> []"
    "path_name ?rel \<noteq> []" by simp_all
  from rel have last: "path_name ?rel = last ?rel" by (simp add: path_name_def)
  show ?thesis
    using n by (simp add: with_suffix_def mirrored_def Let_def last [symmetric])
qed

subsection \<open>The loop of the walker\<close>

text \<open>The three ways a turn of the loop can go.\<close>

lemma sink_unfold:
  "(case progress_callback of Some cb \<Rightarrow> cb msg False | None \<Rightarrow> [Print msg])
     = sink progress_callback msg False"
  "(case progress_callback of Some cb \<Rightarrow> cb msg True | None \<Rightarrow> [PrintErr msg])
     = sink progress_callback msg True"
  by (simp_all add: sink_def split: option.split)
lemma process_file_dir:
  "is_dir (walk_fs w) f \<Longrightarrow>
   process_file lib input_path output_path quality bg_color progress_callback f w = Inr w"
  by (simp add: process_file_def)
lemma process_file_other:
  "\<not> is_dir (walk_fs w) f \<Longrightarrow> \<not> is_png f \<Longrightarrow>
   process_file lib input_path output_path quality bg_color progress_callback f w =
     Inr (w\<lparr>walk_out := walk_out w @
               (case progress_callback of
                  Some cb \<Rightarrow> cb (''Warning: Skipping non-PNG file: '' @ str_path f) False
                | None \<Rightarrow> [Print (''Warning: Skipping non-PNG file: '' @ str_path f)]),
            skipped_count := skipped_count w + 1\<rparr>)"
  by (simp add: process_file_def is_png_def Let_def split: option.split)
lemma process_file_png:
  assumes "\<not> is_dir (walk_fs w) f" and "is_png f" and "strict_prefix input_path f"
    and "convert_image_with_callback lib (walk_fs w) (str_path f)
           (str_path (mirrored input_path output_path f)) quality bg_color progress_callback
         = (ok, fs1, out)"
  shows "process_file lib input_path output_path quality bg_color progress_callback f w =
     Inr (w\<lparr>walk_fs := fs1,
            walk_out := walk_out w @
               (case progress_callback of
                  Some cb \<Rightarrow> cb (''Converting: '' @ path_name f @ '' -> ''
                                 @ path_name (mirrored input_path output_path f)) False
                | None \<Rightarrow> [Print (''Converting: '' @ path_name f @ '' -> ''
                                 @ path_name (mirrored input_path output_path f))]) @ out,
            walk_tasks := walk_tasks w @ [(f, mirrored input_path output_path f, ok)],
            converted_count := converted_count w + (if ok then 1 else 0),
            skipped_count := skipped_count w + (if ok then 0 else 1)\<rparr>)"
proof -
  from with_suffix_mirrored [OF assms(2,3), of output_path] obtain renamed where
    ren: "with_suffix (drop (length input_path) f) ''.jpg'' = Some renamed"
    and out: "output_path @ renamed = mirrored input_path output_path f"
    by blast
  from assms(2) have png: "lower (path_suffix f) = ''.png''" by (simp add: is_png_def)
  show ?thesis
    unfolding process_file_def
    using assms(1) png strict_prefix_drop(1) [OF assms(3)] ren out assms(4)
    by (simp add: Let_def split: option.split)
qed
lemma failed_conversion_is_reported:
  assumes "\<not> is_dir (walk_fs w) f" and "is_png f" and "strict_prefix input_path f"
    and "convert_image_with_callback_try lib (walk_fs w) (str_path f)
           (str_path (mirrored input_path output_path f)) quality bg_color = (fs1, Some e)"
  shows "process_files lib input_path output_path quality bg_color progress_callback (f # files) w =
         process_files lib input_path output_path quality bg_color progress_callback files
           (w\<lparr>walk_fs := fs1,
              walk_out := walk_out w
                @ sink progress_callback (''Converting: '' @ path_name f @ '' -> ''
                     @ path_name (mirrored input_path output_path f)) False
                @ sink progress_callback (''Error: '' @ basename (str_path f) @ '' - '' @ exn_str e) True,
              walk_tasks := walk_tasks w @ [(f, mirrored input_path output_path f, False)],
              skipped_count := skipped_count w + 1\<rparr>)"
proof -
  have "convert_image_with_callback lib (walk_fs w) (str_path f)
           (str_path (mirrored input_path output_path f)) quality bg_color progress_callback
        = (False, fs1,
           sink progress_callback (''Error: '' @ basename (str_path f) @ '' - '' @ exn_str e) True)"
    using assms(4) by (simp add: convert_image_with_callback_def sink_def split: option.split)
  from process_file_png [OF assms(1-3) this]
  show ?thesis by (simp add: sink_unfold)
qed

text \<open>
  The loop never raises on files that lie below the input root and exist, and its
  result is described by \<open>walked\<close>: by induction on the list of files, the state
  generalised. A conversion continues the file system, so what is a directory at
  the start of the loop is one when its turn comes.
\<close>

lemma filter_is_dir_continues:
  assumes "continues fs fs1" and "\<forall>g \<in> set files. map_of fs g \<noteq> None"
  shows "filter (\<lambda>g. \<not> is_dir fs1 g \<and> Q g) files = filter (\<lambda>g. \<not> is_dir fs g \<and> Q g) files"
  using assms by (intro filter_cong) (auto simp: continues_is_dir)
lemma walked_nil: "walked input_path output_path progress_callback [] w w"
  by (simp add: walked_def continues_refl)
lemma walked_dir:
  assumes "is_dir (walk_fs w) f"
    and "walked input_path output_path progress_callback files w w1"
  shows "walked input_path output_path progress_callback (f # files) w w1"
  using assms by (auto simp: walked_def)
lemma walked_other:
  assumes f: "\<not> is_dir (walk_fs w) f" "\<not> is_png f"
    and w': "w' = w\<lparr>walk_out := walk_out w @
                 sink progress_callback (''Warning: Skipping non-PNG file: '' @ str_path f) False,
               skipped_count := skipped_count w + 1\<rparr>"
    and rest: "walked input_path output_path progress_callback files w' w1"
  shows "walked input_path output_path progress_callback (f # files) w w1"
proof -
  let ?W = "sink progress_callback (''Warning: Skipping non-PNG file: '' @ str_path f) False"
  from rest obtain tasks evs where r:
    "walk_tasks w1 = walk_tasks w' @ tasks"
    "map fst tasks = filter (\<lambda>f. \<not> is_dir (walk_fs w') f \<and> is_png f) files"
    "map (\<lambda>t. fst (snd t)) tasks = map (mirrored input_path output_path) (map fst tasks)"
    "converted_count w1 = converted_count w' + length (filter (\<lambda>t. snd (snd t)) tasks)"
    "skipped_count w1 =
          skipped_count w' + length (filter (\<lambda>f. \<not> is_dir (walk_fs w') f \<and> \<not> is_png f) files)
          + length (filter (\<lambda>t. \<not> snd (snd t)) tasks)"
    "walk_out w1 = walk_out w' @ evs"
    "list_all (\<lambda>f. is_dir (walk_fs w') f \<or> is_png f
             \<or> set (sink progress_callback (''Warning: Skipping non-PNG file: '' @ str_path f) False)
                 \<subseteq> set evs) files"
    "continues (walk_fs w') (walk_fs w1)"
    unfolding walked_def by blast
  have fs: "walk_fs w' = walk_fs w" and tk: "walk_tasks w' = walk_tasks w"
    and cc: "converted_count w' = converted_count w"
    and sc: "skipped_count w' = skipped_count w + 1"
    and wo: "walk_out w' = walk_out w @ ?W"
    by (simp_all add: w')
  have warn: "list_all (\<lambda>f. is_dir (walk_fs w) f \<or> is_png f
             \<or> set (sink progress_callback (''Warning: Skipping non-PNG file: '' @ str_path f) False)
                 \<subseteq> set (?W @ evs)) (f # files)"
    using r(7) unfolding fs by (auto simp: list_all_iff)
  show ?thesis
    unfolding walked_def
    apply (rule exI [of _ tasks])
    apply (rule exI [of _ "?W @ evs"])
    using r(1-6,8) warn f unfolding fs tk cc sc wo
    by simp
qed
lemma walked_png:
  assumes f: "\<not> is_dir (walk_fs w) f" "is_png f"
    and present: "\<forall>g \<in> set files. map_of (walk_fs w) g \<noteq> None"
    and cont: "continues (walk_fs w) fs1"
    and w': "w' = w\<lparr>walk_fs := fs1, walk_out := walk_out w @ evs0,
               walk_tasks := walk_tasks w @ [(f, mirrored input_path output_path f, ok)],
               converted_count := converted_count w + (if ok then 1 else 0),
               skipped_count := skipped_count w + (if ok then 0 else 1)\<rparr>"
    and rest: "walked input_path output_path progress_callback files w' w1"
  shows "walked input_path output_path progress_callback (f # files) w w1"
proof -
  from rest obtain tasks evs where r:
    "walk_tasks w1 = walk_tasks w' @ tasks"
    "map fst tasks = filter (\<lambda>f. \<not> is_dir (walk_fs w') f \<and> is_png f) files"
    "map (\<lambda>t. fst (snd t)) tasks = map (mirrored input_path output_path) (map fst tasks)"
    "converted_count w1 = converted_count w' + length (filter (\<lambda>t. snd (snd t)) tasks)"
    "skipped_count w1 =
          skipped_count w' + length (filter (\<lambda>f. \<not> is_dir (walk_fs w') f \<and> \<not> is_png f) files)
          + length (filter (\<lambda>t. \<not> snd (snd t)) tasks)"
    "walk_out w1 = walk_out w' @ evs"
    "list_all (\<lambda>f. is_dir (walk_fs w') f \<or> is_png f
             \<or> set (sink progress_callback (''Warning: Skipping non-PNG file: '' @ str_path f) False)
                 \<subseteq> set evs) files"
    "continues (walk_fs w') (walk_fs w1)"
    unfolding walked_def by blast
  have fs: "walk_fs w' = fs1"
    and tk: "walk_tasks w' = walk_tasks w @ [(f, mirrored input_path output_path f, ok)]"
    and cc: "converted_count w' = converted_count w + (if ok then 1 else 0)"
    and sc: "skipped_count w' = skipped_count w + (if ok then 0 else 1)"
    and wo: "walk_out w' = walk_out w @ evs0"
    by (simp_all add: w')
  have png: "filter (\<lambda>g. \<not> is_dir fs1 g \<and> is_png g) files
           = filter (\<lambda>g. \<not> is_dir (walk_fs w) g \<and> is_png g) files"
    and other: "filter (\<lambda>g. \<not> is_dir fs1 g \<and> \<not> is_png g) files
           = filter (\<lambda>g. \<not> is_dir (walk_fs w) g \<and> \<not> is_png g) files"
    using filter_is_dir_continues [OF cont present] by simp_all
  have dirs: "\<forall>g \<in> set files. is_dir fs1 g = is_dir (walk_fs w) g"
    using cont present by (simp add: continues_is_dir)
  have warn: "list_all (\<lambda>f. is_dir (walk_fs w) f \<or> is_png f
             \<or> set (sink progress_callback (''Warning: Skipping non-PNG file: '' @ str_path f) False)
                 \<subseteq> set (evs0 @ evs)) (f # files)"
    using r(7) f(2) dirs unfolding fs by (auto simp: list_all_iff)
  have c: "continues (walk_fs w) (walk_fs w1)"
    using cont r(8) unfolding fs by (rule continues_trans)
  let ?tasks = "(f, mirrored input_path output_path f, ok) # tasks"
  show ?thesis
    unfolding walked_def
    apply (rule exI [of _ ?tasks])
    apply (rule exI [of _ "evs0 @ evs"])
    using r(1-6) warn c f unfolding fs tk cc sc wo png other
    by simp
qed
lemma process_files_walked:
  assumes "\<forall>f \<in> set files. strict_prefix input_path f \<and> map_of (walk_fs w) f \<noteq> None"
  shows "\<exists>w1. process_files lib input_path output_path quality bg_color progress_callback files w
               = Inr w1
           \<and> walked input_path output_path progress_callback files w w1"
  using assms
proof (induction files arbitrary: w)
  case Nil
  show ?case by (simp add: walked_nil)
next
  case (Cons f files)
  from Cons.prems have f: "strict_prefix input_path f"
    and present: "\<forall>g \<in> set files. map_of (walk_fs w) g \<noteq> None"
    and below: "\<forall>g \<in> set files. strict_prefix input_path g"
    by simp_all
  consider (dir) "is_dir (walk_fs w) f"
    | (other) "\<not> is_dir (walk_fs w) f" "\<not> is_png f"
    | (png) "\<not> is_dir (walk_fs w) f" "is_png f"
    by blast
  then show ?case
  proof cases
    case dir
    from Cons.IH [of w] present below obtain w1 where
      run: "process_files lib input_path output_path quality bg_color progress_callback files w
              = Inr w1"
      and wk: "walked input_path output_path progress_callback files w w1"
      by auto
    from dir run have
      "process_files lib input_path output_path quality bg_color progress_callback (f # files) w
         = Inr w1"
      by (simp add: process_file_dir)
    with walked_dir [OF dir wk] show ?thesis by blast
  next
    case other
    define w' where "w' = w\<lparr>walk_out := walk_out w @
                 sink progress_callback (''Warning: Skipping non-PNG file: '' @ str_path f) False,
               skipped_count := skipped_count w + 1\<rparr>"
    have step: "process_file lib input_path output_path quality bg_color progress_callback f w
                  = Inr w'"
      using process_file_other [OF other] by (simp add: w'_def sink_unfold)
    have "walk_fs w' = walk_fs w" by (simp add: w'_def)
    with Cons.IH [of w'] present below obtain w1 where
      run: "process_files lib input_path output_path quality bg_color progress_callback files w'
              = Inr w1"
      and wk: "walked input_path output_path progress_callback files w' w1"
      by auto
    from step run have
      "process_files lib input_path output_path quality bg_color progress_callback (f # files) w
         = Inr w1"
      by simp
    with walked_other [OF other w'_def wk] show ?thesis by blast
  next
    case png
    obtain ok fs1 out where conv:
      "convert_image_with_callback lib (walk_fs w) (str_path f)
         (str_path (mirrored input_path output_path f)) quality bg_color progress_callback
       = (ok, fs1, out)"
      by (cases "convert_image_with_callback lib (walk_fs w) (str_path f)
         (str_path (mirrored input_path output_path f)) quality bg_color progress_callback")
    let ?evs0 = "sink progress_callback (''Converting: '' @ path_name f @ '' -> ''
                   @ path_name (mirrored input_path output_path f)) False @ out"
    define w' where "w' = w\<lparr>walk_fs := fs1, walk_out := walk_out w @ ?evs0,
               walk_tasks := walk_tasks w @ [(f, mirrored input_path output_path f, ok)],
               converted_count := converted_count w + (if ok then 1 else 0),
               skipped_count := skipped_count w + (if ok then 0 else 1)\<rparr>"
    have step: "process_file lib input_path output_path quality bg_color progress_callback f w
                  = Inr w'"
      using process_file_png [OF png f conv] by (simp add: w'_def sink_unfold)
    have cont: "continues (walk_fs w) fs1"
      using conv by (rule convert_continues)
    have "walk_fs w' = fs1" by (simp add: w'_def)
    moreover have "\<forall>g \<in> set files. map_of fs1 g \<noteq> None"
      using present cont by (auto dest: continues_present)
    ultimately obtain w1 where
      run: "process_files lib input_path output_path quality bg_color progress_callback files w'
              = Inr w1"
      and wk: "walked input_path output_path progress_callback files w' w1"
      using Cons.IH [of w'] below by auto
    from step run have
      "process_files lib input_path output_path quality bg_color progress_callback (f # files) w
         = Inr w1"
      by simp
    with walked_png [OF png present cont w'_def wk] show ?thesis by blast
  qed
qed
lemma list_files_below:
  "f \<in> set (list_files fs input_path recursive) \<Longrightarrow>
   strict_prefix input_path f \<and> map_of fs f \<noteq> None"
  by (cases recursive)
    (auto simp: list_files_def glob_star_def rglob_star_def strict_prefix_def map_of_eq_None_iff
      split: if_splits)
lemma process_directory_walked:
  assumes "path_mkdir fs (resolve output_dir) = (fs1, None)"
  shows "\<exists>w. process_directory lib fs input_dir output_dir quality recursive bg_color
                progress_callback = Inr w
           \<and> walked (resolve input_dir) (resolve output_dir) progress_callback
                (list_files fs1 (resolve input_dir) recursive)
                \<lparr>converted_count = 0, skipped_count = 0, walk_fs = fs1, walk_out = [],
                 walk_tasks = []\<rparr> w"
proof -
  let ?w0 = "\<lparr>converted_count = 0, skipped_count = 0, walk_fs = fs1, walk_out = [],
              walk_tasks = []\<rparr>"
  have "\<forall>f \<in> set (list_files fs1 (resolve input_dir) recursive).
          strict_prefix (resolve input_dir) f \<and> map_of (walk_fs ?w0) f \<noteq> None"
    using list_files_below by simp
  from process_files_walked [OF this]
  show ?thesis
    using assms by (simp add: process_directory_def Let_def)
qed
lemma length_filter_split:
  "length (filter Q xs) = length (filter (\<lambda>x. Q x \<and> R x) xs) + length (filter (\<lambda>x. Q x \<and> \<not> R x) xs)"
  by (induction xs) auto
lemma walked_from_start:
  assumes "walked input_path output_path progress_callback files
             \<lparr>converted_count = 0, skipped_count = 0, walk_fs = fs1, walk_out = [],
              walk_tasks = []\<rparr> w"
  shows "map fst (walk_tasks w) = filter (\<lambda>f. \<not> is_dir fs1 f \<and> is_png f) files"
    and "map (\<lambda>t. fst (snd t)) (walk_tasks w) =
           map (mirrored input_path output_path) (map fst (walk_tasks w))"
    and "converted_count w = length (filter (\<lambda>t. snd (snd t)) (walk_tasks w))"
    and "skipped_count w =
           length (filter (\<lambda>f. \<not> is_dir fs1 f \<and> \<not> is_png f) files)
           + length (filter (\<lambda>t. \<not> snd (snd t)) (walk_tasks w))"
    and "list_all (\<lambda>f. is_dir fs1 f \<or> is_png f
          \<or> set (sink progress_callback (''Warning: Skipping non-PNG file: '' @ str_path f) False)
              \<subseteq> set (walk_out w)) files"
proof -
  let ?w0 = "\<lparr>converted_count = 0, skipped_count = 0, walk_fs = fs1, walk_out = [],
              walk_tasks = []\<rparr>"
  from assms obtain tasks evs where
    t: "walk_tasks w = walk_tasks ?w0 @ tasks"
    and a: "map fst tasks = filter (\<lambda>f. \<not> is_dir (walk_fs ?w0) f \<and> is_png f) files"
    and b: "map (\<lambda>t. fst (snd t)) tasks = map (mirrored input_path output_path) (map fst tasks)"
    and c: "converted_count w = converted_count ?w0 + length (filter (\<lambda>t. snd (snd t)) tasks)"
    and d: "skipped_count w =
          skipped_count ?w0 + length (filter (\<lambda>f. \<not> is_dir (walk_fs ?w0) f \<and> \<not> is_png f) files)
          + length (filter (\<lambda>t. \<not> snd (snd t)) tasks)"
    and e: "walk_out w = walk_out ?w0 @ evs"
    and g: "list_all (\<lambda>f. is_dir (walk_fs ?w0) f \<or> is_png f
             \<or> set (sink progress_callback (''Warning: Skipping non-PNG file: '' @ str_path f) False)
                 \<subseteq> set evs) files"
    unfolding walked_def by blast
  from t have t': "tasks = walk_tasks w" by simp
  from e have e': "evs = walk_out w" by simp
  show "map fst (walk_tasks w) = filter (\<lambda>f. \<not> is_dir fs1 f \<and> is_png f) files"
    using a unfolding t' by simp
  show "map (\<lambda>t. fst (snd t)) (walk_tasks w) =
           map (mirrored input_path output_path) (map fst (walk_tasks w))"
    using b unfolding t' .
  show "converted_count w = length (filter (\<lambda>t. snd (snd t)) (walk_tasks w))"
    using c unfolding t' by simp
  show "skipped_count w =
           length (filter (\<lambda>f. \<not> is_dir fs1 f \<and> \<not> is_png f) files)
           + length (filter (\<lambda>t. \<not> snd (snd t)) (walk_tasks w))"
    using d unfolding t' by simp
  show "list_all (\<lambda>f. is_dir fs1 f \<or> is_png f
          \<or> set (sink progress_callback (''Warning: Skipping non-PNG file: '' @ str_path f) False)
              \<subseteq> set (walk_out w)) files"
    using g unfolding e' by simp
qed

subsection \<open>The worker thread\<close>

lemma worker_log_is_direct:
  "\<exists>m e. Widget (LogMessage m e) \<in> set (snd (run_conversion lib fs g))"
proof (cases "get_bg_color g")
  case (Inl m)
  then show ?thesis
    by (auto simp: run_conversion_def log_message_def)
next
  case (Inr bg)
  show ?thesis
  proof (cases "process_directory lib fs (var_input_path g) (var_output_path g) (var_quality g)
                  (var_recursive g) bg (Some gui_progress_callback)")
    case (Inl ew)
    with Inr show ?thesis
      by (cases ew) (auto simp: run_conversion_def log_message_def)
  next
    case inner: (Inr w)
    with Inr show ?thesis
      by (auto simp: run_conversion_def log_message_def)
  qed
qed

subsection \<open>Sample runs\<close>

text \<open>The sample inputs, evaluated step by step.\<close>

lemma demo_lib_sel:
  "decode demo_lib bs = (if bs = [1] then Inr demo_image else Inl ''cannot identify image file'')"
  "convert_rgb demo_lib img = Inl ''conversion not supported''"
  "jpeg_save demo_lib img q = (case im_data img of
                      PixRGB px \<Rightarrow> Inr (concat (map (\<lambda>(r, g, b). [r, g, b]) px))
                    | _ \<Rightarrow> Inl (''cannot write mode as JPEG'', None))"
  by (simp_all add: demo_lib_def)
lemma failing_lib_sel:
  "decode failing_lib bs = (if bs = [1] then Inr demo_image else Inl ''cannot identify image file'')"
  "jpeg_save failing_lib img q = Inl (''encoder error'', None)"
  by (simp_all add: failing_lib_def demo_lib_def)
lemma demo_open_a: "image_open demo_lib demo_fs ''in/a.png'' = Inr demo_image"
  by code_simp
lemma demo_open_bad:
  "image_open demo_lib demo_fs ''in/bad.png'' = Inl (ImageError ''cannot identify image file'')"
  by code_simp
lemma failing_open_a: "image_open failing_lib demo_fs ''in/a.png'' = Inr demo_image"
  by code_simp
lemma demo_makedirs_out:
  "makedirs demo_fs (dirname ''out/a.jpg'') = (demo_fs @ [([''out''], DirE)], None)"
  by code_simp
lemma demo_resolve_out: "resolve ''out/a.jpg'' = [''out'', ''a.jpg'']"
  by code_simp
lemma demo_out_dirs:
  "is_dir (demo_fs @ [([''out''], DirE)]) [''out'', ''a.jpg''] = False"
  "is_dir (demo_fs @ [([''out''], DirE)]) [''out''] = True"
  by code_simp+
lemma demo_write_out:
  "write_file (demo_fs @ [([''out''], DirE)]) [''out'', ''a.jpg''] bs =
   demo_fs @ [([''out''], DirE), ([''out'', ''a.jpg''], FileE bs)]"
  by (simp add: write_file_def demo_fs_def)
lemma demo_pixels:
  "paste_mask (replicate (2 * 1) (255, 255, 255)) [(10, 20, 30), (200, 100, 50)] [0, 255] =
     [(255, 255, 255), (200, 100, 50)]"
proof -
  have "replicate (2 * 1) (255 :: nat, 255 :: nat, 255 :: nat) = [(255, 255, 255), (255, 255, 255)]"
    by (simp add: numeral_2_eq_2)
  then show ?thesis
    by (simp add: blend8_def div255_def)
qed
lemma demo_mode: "mode demo_image = ''RGBA''"
  by (simp add: mode_def demo_image_def)
lemma demo_composite:
  "paste (image_new_rgb (im_size demo_image) (255, 255, 255)) demo_image
     (Some (last_band (im_data demo_image))) =
   \<lparr>im_size = (2, 1), im_data = PixRGB [(255, 255, 255), (200, 100, 50)]\<rparr>"
  using demo_pixels by (simp add: demo_image_def image_new_rgb_def paste_def clip8_def)
lemma demo_try_a:
  "convert_image_with_callback_try demo_lib demo_fs ''in/a.png'' ''out/a.jpg'' 85 (255, 255, 255) =
     (demo_fs @ [([''out''], DirE), ([''out'', ''a.jpg''], FileE [255, 255, 255, 200, 100, 50])], None)"
  by (simp add: convert_image_with_callback_try_def demo_open_a demo_mode demo_composite
      demo_makedirs_out save_def demo_resolve_out demo_out_dirs demo_lib_sel demo_write_out)
lemma failing_try_a:
  "convert_image_with_callback_try failing_lib demo_fs ''in/a.png'' ''out/a.jpg'' 85 (255, 255, 255) =
     (demo_fs @ [([''out''], DirE)], Some (ImageError ''encoder error''))"
  by (simp add: convert_image_with_callback_try_def failing_open_a demo_mode demo_composite
      demo_makedirs_out save_def demo_resolve_out demo_out_dirs failing_lib_sel)
lemma demo_try_bad:
  "convert_image_with_callback_try demo_lib demo_fs ''in/bad.png'' ''out/bad.jpg'' 85 (255, 255, 255) =
     (demo_fs, Some (ImageError ''cannot identify image file''))"
  by (simp add: convert_image_with_callback_try_def demo_open_bad)
lemma demo_basenames: "basename ''in/a.png'' = ''a.png''" "basename ''in/bad.png'' = ''bad.png''"
  by code_simp+
lemma demo_out_name: "basename ''out/a.jpg'' \<noteq> []" "basename ''out/a.jpg'' \<noteq> ''.''"
  by code_simp+
lemma truncating_lib_sel:
  "decode truncating_lib bs = (if bs = [1] then Inr demo_image else Inl ''cannot identify image file'')"
  "jpeg_save truncating_lib img q = Inl (''encoder error'', Some [])"
  by (simp_all add: truncating_lib_def demo_lib_def)
lemma rerun_open_a: "image_open truncating_lib rerun_fs ''in/a.png'' = Inr demo_image"
  by code_simp
lemma rerun_makedirs_out: "makedirs rerun_fs (dirname ''out/a.jpg'') = (rerun_fs, None)"
  by code_simp
lemma rerun_out_dirs:
  "is_dir rerun_fs [''out'', ''a.jpg''] = False" "is_dir rerun_fs [''out''] = True"
  by code_simp+
lemma rerun_write_out:
  "write_file rerun_fs [''out'', ''a.jpg''] bs =
   demo_fs @ [([''out''], DirE), ([''out'', ''a.jpg''], FileE bs)]"
  by (simp add: write_file_def rerun_fs_def demo_fs_def)
lemma rerun_try_a:
  "convert_image_with_callback_try truncating_lib rerun_fs ''in/a.png'' ''out/a.jpg'' 85 (255, 255, 255) =
     (demo_fs @ [([''out''], DirE), ([''out'', ''a.jpg''], FileE [])],
      Some (ImageError ''encoder error''))"
  by (simp add: convert_image_with_callback_try_def rerun_open_a demo_mode demo_composite
      rerun_makedirs_out save_def demo_resolve_out rerun_out_dirs truncating_lib_sel rerun_write_out)
lemma bad_paths:
  "resolve ''in'' = [''in'']" "resolve ''out'' = [''out'']"
  "str_path [''in'', ''bad.png''] = ''in/bad.png''"
  "mirrored [''in''] [''out''] [''in'', ''bad.png''] = [''out'', ''bad.jpg'']"
  "str_path [''out'', ''bad.jpg''] = ''out/bad.jpg''"
  "path_name [''in'', ''bad.png''] = ''bad.png''"
  "path_name [''out'', ''bad.jpg''] = ''bad.jpg''"
  "basename ''in/bad.png'' = ''bad.png''"
  "is_png [''in'', ''bad.png'']"
  "strict_prefix [''in''] [''in'', ''bad.png'']"
  by code_simp+
lemma bad_mkdir: "path_mkdir bad_fs [''out''] = (bad_fs @ [([''out''], DirE)], None)"
  by code_simp
lemma bad_files:
  "list_files (bad_fs @ [([''out''], DirE)]) [''in''] recursive = [[''in'', ''bad.png'']]"
proof -
  have "list_files (bad_fs @ [([''out''], DirE)]) [''in''] True = [[''in'', ''bad.png'']]"
    "list_files (bad_fs @ [([''out''], DirE)]) [''in''] False = [[''in'', ''bad.png'']]"
    by code_simp+
  then show ?thesis by (cases recursive) simp_all
qed
lemma bad_not_dir: "\<not> is_dir (bad_fs @ [([''out''], DirE)]) [''in'', ''bad.png'']"
  by code_simp
lemma bad_open:
  "image_open demo_lib (bad_fs @ [([''out''], DirE)]) ''in/bad.png'' =
     Inl (ImageError ''cannot identify image file'')"
  by code_simp
lemma bad_try:
  "convert_image_with_callback_try demo_lib (bad_fs @ [([''out''], DirE)]) ''in/bad.png''
     ''out/bad.jpg'' 85 (255, 255, 255) =
   (bad_fs @ [([''out''], DirE)], Some (ImageError ''cannot identify image file''))"
  by (simp add: convert_image_with_callback_try_def bad_open)
lemma bad_convert:
  "convert_image_with_callback demo_lib (bad_fs @ [([''out''], DirE)]) ''in/bad.png''
     ''out/bad.jpg'' 85 (255, 255, 255) progress_callback =
   (False, bad_fs @ [([''out''], DirE)],
    sink progress_callback ''Error: bad.png - cannot identify image file'' True)"
  by (simp add: convert_image_with_callback_def bad_try bad_paths sink_def split: option.split)
lemma bad_run:
  "process_directory demo_lib bad_fs ''in'' ''out'' 85 recursive (255, 255, 255) progress_callback =
     Inr \<lparr>converted_count = 0, skipped_count = 1, walk_fs = bad_fs @ [([''out''], DirE)],
          walk_out = sink progress_callback ''Converting: bad.png -> bad.jpg'' False
                     @ sink progress_callback ''Error: bad.png - cannot identify image file'' True,
          walk_tasks = [([''in'', ''bad.png''], [''out'', ''bad.jpg''], False)]\<rparr>"
proof -
  let ?w0 = "\<lparr>converted_count = 0, skipped_count = 0, walk_fs = bad_fs @ [([''out''], DirE)],
              walk_out = [], walk_tasks = []\<rparr>"
  have conv: "convert_image_with_callback demo_lib (walk_fs ?w0) (str_path [''in'', ''bad.png''])
      (str_path (mirrored [''in''] [''out''] [''in'', ''bad.png''])) 85 (255, 255, 255) progress_callback =
   (False, bad_fs @ [([''out''], DirE)],
    sink progress_callback ''Error: bad.png - cannot identify image file'' True)"
    by (simp add: bad_paths bad_convert)
  have nd: "\<not> is_dir (walk_fs ?w0) [''in'', ''bad.png'']"
    using bad_not_dir by simp
  have "process_file demo_lib [''in''] [''out''] 85 (255, 255, 255) progress_callback
          [''in'', ''bad.png''] ?w0 =
     Inr \<lparr>converted_count = 0, skipped_count = 1, walk_fs = bad_fs @ [([''out''], DirE)],
          walk_out = sink progress_callback ''Converting: bad.png -> bad.jpg'' False
                     @ sink progress_callback ''Error: bad.png - cannot identify image file'' True,
          walk_tasks = [([''in'', ''bad.png''], [''out'', ''bad.jpg''], False)]\<rparr>"
    using process_file_png [OF nd bad_paths(9) bad_paths(10) conv]
    by (simp add: bad_paths sink_unfold)
  then show ?thesis
    by (simp add: process_directory_def bad_paths bad_mkdir bad_files)
qed
lemma bad_parse:
  "parse_arguments bad_fs demo_argv =
     Inr \<lparr>args_input = ''in'', args_output = ''out'', args_quality = 85, args_recursive = True,
          args_background = (255, 255, 255)\<rparr>"
  by code_simp
lemma demo_mkdir: "path_mkdir demo_fs (resolve ''out'') = (demo_fs @ [([''out''], DirE)], None)"
  by code_simp
lemma demo_files:
  "list_files (demo_fs @ [([''out''], DirE)]) (resolve ''in'') True =
     [[''in'', ''a.png''], [''in'', ''notes.txt''], [''in'', ''bad.png''], [''in'', ''sub''],
      [''in'', ''sub'', ''c.PNG'']]"
  "list_files (demo_fs @ [([''out''], DirE)]) (resolve ''in'') False =
     [[''in'', ''a.png''], [''in'', ''notes.txt''], [''in'', ''bad.png''], [''in'', ''sub'']]"
  by code_simp+
lemma demo_png_files:
  "filter (\<lambda>f. \<not> is_dir (demo_fs @ [([''out''], DirE)]) f \<and> is_png f)
     [[''in'', ''a.png''], [''in'', ''notes.txt''], [''in'', ''bad.png''], [''in'', ''sub''],
      [''in'', ''sub'', ''c.PNG'']] =
     [[''in'', ''a.png''], [''in'', ''bad.png''], [''in'', ''sub'', ''c.PNG'']]"
  "filter (\<lambda>f. \<not> is_dir (demo_fs @ [([''out''], DirE)]) f \<and> is_png f)
     [[''in'', ''a.png''], [''in'', ''notes.txt''], [''in'', ''bad.png''], [''in'', ''sub'']] =
     [[''in'', ''a.png''], [''in'', ''bad.png'']]"
  "length (filter (\<lambda>f. \<not> is_dir (demo_fs @ [([''out''], DirE)]) f)
     [[''in'', ''a.png''], [''in'', ''notes.txt''], [''in'', ''bad.png''], [''in'', ''sub''],
      [''in'', ''sub'', ''c.PNG'']]) = 4"
  by code_simp+
lemma demo_mirrored:
  "map (mirrored (resolve ''in'') (resolve ''out''))
     [[''in'', ''a.png''], [''in'', ''bad.png''], [''in'', ''sub'', ''c.PNG'']] =
     [[''out'', ''a.jpg''], [''out'', ''bad.jpg''], [''out'', ''sub'', ''c.jpg'']]"
  "map (mirrored (resolve ''in'') (resolve ''out'')) [[''in'', ''a.png''], [''in'', ''bad.png'']] =
     [[''out'', ''a.jpg''], [''out'', ''bad.jpg'']]"
  by code_simp+
lemma bad_gui_run:
  "snd (run_conversion demo_lib bad_fs demo_gui) =
     [Widget (LogMessage ''Input: in'' False), Widget (LogMessage ''Output: out'' False),
      Widget (LogMessage ''Quality: 85'' False), Widget (LogMessage ''Recursive: False'' False),
      Widget (LogMessage ''Background: RGB(255, 255, 255)'' False),
      Widget (LogMessage ''----------------------------------------'' False),
      After (LogMessage ''Converting: bad.png -> bad.jpg'' False),
      After (LogMessage ''Error: bad.png - cannot identify image file'' True),
      Widget (LogMessage ''----------------------------------------'' False),
      Widget (LogMessage ''Complete! Converted 0 files. 1 skipped.'' False),
      After ConversionComplete]"
proof -
  have bg: "get_bg_color demo_gui = Inr (255, 255, 255)"
    by (simp add: get_bg_color_def demo_gui_def)
  have vars: "var_input_path demo_gui = ''in''" "var_output_path demo_gui = ''out''"
    "var_quality demo_gui = 85" "var_recursive demo_gui = False"
    by (simp_all add: demo_gui_def)
  have strs: "str_int 85 = ''85''" "str_bool False = ''False''"
    "str_tuple3 (255, 255, 255) = ''(255, 255, 255)''" "str_nat 0 = ''0''" "str_nat (Suc 0) = ''1''"
    "replicate 40 (CHR ''-'') = ''----------------------------------------''"
    by code_simp+
  show ?thesis
    by (simp add: run_conversion_def bg vars bad_run sink_def gui_progress_callback_def
        log_message_def strs Let_def)
qed

section \<open>The claims of the specification\<close>

text \<open>
  Claim C1. An image that has an alpha channel or is palette-indexed (a PNG decodes to
  mode RGBA, LA or P then) and whose pixel count matches its dimensions is composited
  onto a canvas of the same dimensions filled with the background colour, each pixel
  blended under the alpha of the source; a pixel that is fully transparent in the
  source is exactly the background colour. This image is what both converters hand to
  the JPEG encoder once the output directory is made. (What the lossy encoder makes
  of the pixels lies in the library.)
\<close>

theorem composite_onto_background:
  assumes opened: "image_open lib fs input_path = Inr img"
    and alpha: "mode img \<in> set [''RGBA'', ''LA'', ''P'']"
    and valid: "length (alpha_channel img) = fst (im_size img) * snd (im_size img)"
    and bg: "0 \<le> r" "r \<le> 255" "0 \<le> g" "g \<le> 255" "0 \<le> b" "b \<le> 255"
  shows "\<exists>px.
      length px = fst (im_size img) * snd (im_size img)
    \<and> (\<forall>i < length px.
          px ! i = blend_rgb (alpha_channel img ! i) (nat r, nat g, nat b)
                     (rgb_pixels (im_data img) ! i))
    \<and> (\<forall>i < length px. alpha_channel img ! i = 0 \<longrightarrow> px ! i = (nat r, nat g, nat b))
    \<and> convert_image_try lib fs input_path output_path quality (r, g, b) =
        (case makedirs fs (dirname output_path) of
           (fs1, Some e) \<Rightarrow> (fs1, Some e)
         | (fs1, None) \<Rightarrow>
             save lib fs1 \<lparr>im_size = im_size img, im_data = PixRGB px\<rparr> output_path quality)
    \<and> convert_image_with_callback_try lib fs input_path output_path quality (r, g, b) =
        (case makedirs fs (dirname output_path) of
           (fs1, Some e) \<Rightarrow> (fs1, Some e)
         | (fs1, None) \<Rightarrow>
             save lib fs1 \<lparr>im_size = im_size img, im_data = PixRGB px\<rparr> output_path quality)"
proof -
  let ?n = "fst (im_size img) * snd (im_size img)"
  let ?bg = "(nat r, nat g, nat b)"
  let ?px = "paste_mask (replicate ?n ?bg) (rgb_pixels (im_data img)) (alpha_channel img)"
  have len: "length ?px = ?n"
    by (simp add: length_paste_mask)
  have lens: "length (rgb_pixels (im_data img)) = ?n"
    using length_rgb_pixels_alpha [OF alpha] valid by simp
  have nth: "?px ! i = blend_rgb (alpha_channel img ! i) ?bg (rgb_pixels (im_data img) ! i)"
    if "i < ?n" for i
    using that paste_mask_nth [of i "replicate ?n ?bg" "rgb_pixels (im_data img)" "alpha_channel img"]
      lens valid by simp
  have transparent: "?px ! i = ?bg" if "i < ?n" "alpha_channel img ! i = 0" for i
  proof -
    have "nat r \<le> 255" "nat g \<le> 255" "nat b \<le> 255" using bg by simp_all
    then show ?thesis
      using nth [OF that(1)] that(2) by (simp add: blend_rgb_transparent)
  qed
  have branch: "(let background = image_new_rgb (im_size img) (r, g, b);
              img1 = (if mode img = ''P'' then convert_rgba img else img);
              background1 =
                (if mode img1 = ''RGBA'' then
                   paste background img1 (Some (last_band (im_data img1)))
                 else if mode img1 = ''LA'' then
                   paste background img1 (Some (last_band (im_data img1)))
                 else paste background img1 None)
          in background1) = \<lparr>im_size = im_size img, im_data = PixRGB ?px\<rparr>"
    using composite_branch [OF alpha, of "(r, g, b)"] bg by (simp add: clip8_in_range)
  have "convert_image_try lib fs input_path output_path quality (r, g, b) =
        (case makedirs fs (dirname output_path) of
           (fs1, Some e) \<Rightarrow> (fs1, Some e)
         | (fs1, None) \<Rightarrow>
             save lib fs1 \<lparr>im_size = im_size img, im_data = PixRGB ?px\<rparr> output_path quality)"
    unfolding convert_image_try_def using opened alpha branch by (simp add: Let_def)
  moreover have "convert_image_with_callback_try lib fs input_path output_path quality (r, g, b) =
        (case makedirs fs (dirname output_path) of
           (fs1, Some e) \<Rightarrow> (fs1, Some e)
         | (fs1, None) \<Rightarrow>
             save lib fs1 \<lparr>im_size = im_size img, im_data = PixRGB ?px\<rparr> output_path quality)"
    unfolding convert_image_with_callback_try_def using opened alpha branch by (simp add: Let_def)
  ultimately show ?thesis
    using len nth transparent by (intro exI [of _ ?px]) simp
qed
theorem composite_onto_background_witness:
  "\<exists>px. length px = 2 \<and> px ! 0 = (255, 255, 255)
     \<and> convert_image_try demo_lib demo_fs ''in/a.png'' ''out/a.jpg'' 85 (255, 255, 255) =
         save demo_lib (demo_fs @ [([''out''], DirE)]) \<lparr>im_size = (2, 1), im_data = PixRGB px\<rparr>
           ''out/a.jpg'' 85"
proof -
  have alpha: "alpha_channel demo_image = [0, 255]"
    by (simp add: alpha_channel_def demo_image_def)
  have size: "im_size demo_image = (2, 1)"
    by (simp add: demo_image_def)
  have "mode demo_image \<in> set [''RGBA'', ''LA'', ''P'']"
    by (simp add: demo_mode)
  moreover have "length (alpha_channel demo_image) = fst (im_size demo_image) * snd (im_size demo_image)"
    by (simp add: alpha size)
  ultimately obtain px where px:
    "length px = fst (im_size demo_image) * snd (im_size demo_image)"
    "\<forall>i < length px. alpha_channel demo_image ! i = 0 \<longrightarrow> px ! i = (nat 255, nat 255, nat 255)"
    "convert_image_try demo_lib demo_fs ''in/a.png'' ''out/a.jpg'' 85 (255, 255, 255) =
        (case makedirs demo_fs (dirname ''out/a.jpg'') of
           (fs1, Some e) \<Rightarrow> (fs1, Some e)
         | (fs1, None) \<Rightarrow>
             save demo_lib fs1 \<lparr>im_size = im_size demo_image, im_data = PixRGB px\<rparr> ''out/a.jpg'' 85)"
    using composite_onto_background [OF demo_open_a, of 255 255 255 "''out/a.jpg''" 85]
    by auto
  from px(1) have "length px = 2" by (simp add: size)
  moreover from px(2) this have "px ! 0 = (255, 255, 255)" by (simp add: alpha)
  moreover from px(3) have
    "convert_image_try demo_lib demo_fs ''in/a.png'' ''out/a.jpg'' 85 (255, 255, 255) =
       save demo_lib (demo_fs @ [([''out''], DirE)]) \<lparr>im_size = (2, 1), im_data = PixRGB px\<rparr>
         ''out/a.jpg'' 85"
    by (simp add: demo_makedirs_out size)
  ultimately show ?thesis by blast
qed

text \<open>
  Claim C2. Once the output root is made, the walker returns; the files that are no
  directories and end in \<^verbatim>\<open>.png\<close> (in any case of the letters) are exactly the ones
  handed to the converter; the converted count is the number of calls that
  succeeded; the skipped count is the number of other files that are no directories
  plus the number of calls that failed; every such other file is reported by a
  warning; directories are not counted, so the two counts add up to the number of
  entries that are no directories.
\<close>

theorem walker_classifies_and_counts:
  assumes "path_mkdir fs (resolve output_dir) = (fs1, None)"
  shows "\<exists>w. process_directory lib fs input_dir output_dir quality recursive bg_color
                progress_callback = Inr w
    \<and> map fst (walk_tasks w) =
        filter (\<lambda>f. \<not> is_dir fs1 f \<and> is_png f) (list_files fs1 (resolve input_dir) recursive)
    \<and> converted_count w = length (filter (\<lambda>t. snd (snd t)) (walk_tasks w))
    \<and> skipped_count w =
        length (filter (\<lambda>f. \<not> is_dir fs1 f \<and> \<not> is_png f) (list_files fs1 (resolve input_dir) recursive))
        + length (filter (\<lambda>t. \<not> snd (snd t)) (walk_tasks w))
    \<and> converted_count w + skipped_count w =
        length (filter (\<lambda>f. \<not> is_dir fs1 f) (list_files fs1 (resolve input_dir) recursive))
    \<and> list_all (\<lambda>f. is_dir fs1 f \<or> is_png f
          \<or> set (sink progress_callback (''Warning: Skipping non-PNG file: '' @ str_path f) False)
              \<subseteq> set (walk_out w))
        (list_files fs1 (resolve input_dir) recursive)"
proof -
  let ?files = "list_files fs1 (resolve input_dir) recursive"
  from process_directory_walked [OF assms] obtain w where
    run: "process_directory lib fs input_dir output_dir quality recursive bg_color
            progress_callback = Inr w"
    and wk: "walked (resolve input_dir) (resolve output_dir) progress_callback ?files
                \<lparr>converted_count = 0, skipped_count = 0, walk_fs = fs1, walk_out = [],
                 walk_tasks = []\<rparr> w"
    by blast
  note tasks = walked_from_start(1) [OF wk] and conv = walked_from_start(3) [OF wk]
    and skip = walked_from_start(4) [OF wk] and warn = walked_from_start(5) [OF wk]
  have "length (walk_tasks w) = length (filter (\<lambda>f. \<not> is_dir fs1 f \<and> is_png f) ?files)"
    using tasks by (metis length_map)
  moreover have "length (walk_tasks w) =
      length (filter (\<lambda>t. snd (snd t)) (walk_tasks w))
      + length (filter (\<lambda>t. \<not> snd (snd t)) (walk_tasks w))"
    by (simp add: sum_length_filter_compl)
  moreover have "length (filter (\<lambda>f. \<not> is_dir fs1 f) ?files) =
      length (filter (\<lambda>f. \<not> is_dir fs1 f \<and> is_png f) ?files)
      + length (filter (\<lambda>f. \<not> is_dir fs1 f \<and> \<not> is_png f) ?files)"
    by (rule length_filter_split)
  ultimately have total: "converted_count w + skipped_count w =
        length (filter (\<lambda>f. \<not> is_dir fs1 f) ?files)"
    using conv skip by simp
  from run tasks conv skip total warn show ?thesis by blast
qed
theorem walker_classifies_and_counts_witness:
  "\<exists>w. process_directory demo_lib demo_fs ''in'' ''out'' 85 True (255, 255, 255) None = Inr w
     \<and> map fst (walk_tasks w) = [[''in'', ''a.png''], [''in'', ''bad.png''], [''in'', ''sub'', ''c.PNG'']]
     \<and> converted_count w + skipped_count w = 4"
  using walker_classifies_and_counts
    [OF demo_mkdir, of demo_lib "''in''" 85 True "(255, 255, 255)" None,
     unfolded demo_files demo_png_files]
  by (elim exE conjE) (intro exI conjI, assumption+)

text \<open>
  Claim C3. The output path of every file handed to the converter is the output root
  joined with the path of the file relative to the input root, the suffix of its name
  replaced by \<^verbatim>\<open>.jpg\<close>. With the recursive flag every file below the input root
  that is no directory and ends in \<^verbatim>\<open>.png\<close> is processed, at any depth; without it
  only direct children of the input root are.
\<close>

theorem output_paths_mirror_input:
  assumes "path_mkdir fs (resolve output_dir) = (fs1, None)"
  shows "\<exists>w. process_directory lib fs input_dir output_dir quality recursive bg_color
                progress_callback = Inr w
    \<and> map fst (walk_tasks w) =
        filter (\<lambda>f. \<not> is_dir fs1 f \<and> is_png f) (list_files fs1 (resolve input_dir) recursive)
    \<and> map (\<lambda>t. fst (snd t)) (walk_tasks w) =
        map (mirrored (resolve input_dir) (resolve output_dir)) (map fst (walk_tasks w))
    \<and> (recursive \<longrightarrow> is_dir fs1 (resolve input_dir) \<longrightarrow>
          (\<forall>f. f \<in> set (map fst fs1) \<and> strict_prefix (resolve input_dir) f
                \<and> \<not> is_dir fs1 f \<and> is_png f
               \<longrightarrow> f \<in> set (map fst (walk_tasks w))))
    \<and> (\<not> recursive \<longrightarrow>
          (\<forall>f. f \<in> set (map fst (walk_tasks w)) \<longrightarrow> length f = Suc (length (resolve input_dir))))"
proof -
  let ?files = "list_files fs1 (resolve input_dir) recursive"
  from process_directory_walked [OF assms] obtain w where
    run: "process_directory lib fs input_dir output_dir quality recursive bg_color
            progress_callback = Inr w"
    and wk: "walked (resolve input_dir) (resolve output_dir) progress_callback ?files
                \<lparr>converted_count = 0, skipped_count = 0, walk_fs = fs1, walk_out = [],
                 walk_tasks = []\<rparr> w"
    by blast
  note tasks = walked_from_start(1) [OF wk] and outs = walked_from_start(2) [OF wk]
  have deep: "recursive \<longrightarrow> is_dir fs1 (resolve input_dir) \<longrightarrow>
          (\<forall>f. f \<in> set (map fst fs1) \<and> strict_prefix (resolve input_dir) f
                \<and> \<not> is_dir fs1 f \<and> is_png f
               \<longrightarrow> f \<in> set (map fst (walk_tasks w)))"
    unfolding tasks by (simp add: list_files_def rglob_star_def)
  have flat: "\<not> recursive \<longrightarrow>
          (\<forall>f. f \<in> set (map fst (walk_tasks w)) \<longrightarrow> length f = Suc (length (resolve input_dir)))"
    unfolding tasks by (simp add: list_files_def glob_star_def)
  from run tasks outs deep flat show ?thesis by blast
qed
theorem output_paths_mirror_input_witness:
  "(\<exists>w. process_directory demo_lib demo_fs ''in'' ''out'' 85 True (255, 255, 255) None = Inr w
      \<and> map fst (walk_tasks w) = [[''in'', ''a.png''], [''in'', ''bad.png''], [''in'', ''sub'', ''c.PNG'']]
      \<and> map (\<lambda>t. fst (snd t)) (walk_tasks w) =
          map (mirrored (resolve ''in'') (resolve ''out'')) (map fst (walk_tasks w)))
   \<and> (\<exists>w. process_directory demo_lib demo_fs ''in'' ''out'' 85 False (255, 255, 255) None = Inr w
      \<and> map fst (walk_tasks w) = [[''in'', ''a.png''], [''in'', ''bad.png'']]
      \<and> map (\<lambda>t. fst (snd t)) (walk_tasks w) =
          map (mirrored (resolve ''in'') (resolve ''out'')) (map fst (walk_tasks w)))
   \<and> map (mirrored (resolve ''in'') (resolve ''out''))
       [[''in'', ''a.png''], [''in'', ''bad.png''], [''in'', ''sub'', ''c.PNG'']] =
       [[''out'', ''a.jpg''], [''out'', ''bad.jpg''], [''out'', ''sub'', ''c.jpg'']]"
proof -
  have deep:
    "\<exists>w. process_directory demo_lib demo_fs ''in'' ''out'' 85 True (255, 255, 255) None = Inr w
      \<and> map fst (walk_tasks w) = [[''in'', ''a.png''], [''in'', ''bad.png''], [''in'', ''sub'', ''c.PNG'']]
      \<and> map (\<lambda>t. fst (snd t)) (walk_tasks w) =
          map (mirrored (resolve ''in'') (resolve ''out'')) (map fst (walk_tasks w))"
    using output_paths_mirror_input
      [OF demo_mkdir, of demo_lib "''in''" 85 True "(255, 255, 255)" None,
       unfolded demo_files demo_png_files]
    by (elim exE conjE) (intro exI conjI, assumption+)
  have flat:
    "\<exists>w. process_directory demo_lib demo_fs ''in'' ''out'' 85 False (255, 255, 255) None = Inr w
      \<and> map fst (walk_tasks w) = [[''in'', ''a.png''], [''in'', ''bad.png'']]
      \<and> map (\<lambda>t. fst (snd t)) (walk_tasks w) =
          map (mirrored (resolve ''in'') (resolve ''out'')) (map fst (walk_tasks w))"
    using output_paths_mirror_input
      [OF demo_mkdir, of demo_lib "''in''" 85 False "(255, 255, 255)" None,
       unfolded demo_files demo_png_files]
    by (elim exE conjE) (intro exI conjI, assumption+)
  from deep flat demo_mirrored(1) show ?thesis by (intro conjI)
qed

text \<open>
  Claim C4. The arguments are accepted exactly when the input directory exists, the
  quality lies in \<open>[1, 100]\<close> and the background is exactly three comma-separated
  integers, each in \<open>[0, 255]\<close>, and then the colour is those three integers.
  Otherwise \<^verbatim>\<open>main\<close> ends with status 2, prints the error only and leaves the file
  system as it was. \<^verbatim>\<open>0,0,0\<close> parses to \<open>(0, 0, 0)\<close>; \<^verbatim>\<open>256,0,0\<close> and \<^verbatim>\<open>1,2\<close> are
  rejected.
\<close>

theorem argument_validation:
  "(case parse_arguments fs a of
      Inr ns \<Rightarrow>
        isdir fs (argv_input a) \<and> 1 \<le> argv_quality a \<and> argv_quality a \<le> 100
        \<and> spec_background (argv_background a) = Some (args_background ns)
    | Inl msg \<Rightarrow>
        (\<not> isdir fs (argv_input a) \<or> argv_quality a < 1 \<or> 100 < argv_quality a
         \<or> spec_background (argv_background a) = None)
        \<and> main lib fs a = (2, fs, [PrintErr (''error: '' @ msg)]))
   \<and> parse_background ''0,0,0'' = Inr (0, 0, 0)
   \<and> isl (parse_background ''256,0,0'')
   \<and> isl (parse_background ''1,2'')"
proof -
  have fixed: "parse_background ''0,0,0'' = Inr (0, 0, 0) \<and> isl (parse_background ''256,0,0'')
      \<and> isl (parse_background ''1,2'')"
    by code_simp
  have "case parse_arguments fs a of
      Inr ns \<Rightarrow>
        isdir fs (argv_input a) \<and> 1 \<le> argv_quality a \<and> argv_quality a \<le> 100
        \<and> spec_background (argv_background a) = Some (args_background ns)
    | Inl msg \<Rightarrow>
        (\<not> isdir fs (argv_input a) \<or> argv_quality a < 1 \<or> 100 < argv_quality a
         \<or> spec_background (argv_background a) = None)
        \<and> main lib fs a = (2, fs, [PrintErr (''error: '' @ msg)])"
  proof (cases "parse_arguments fs a")
    case (Inl msg)
    have "\<not> isdir fs (argv_input a) \<or> argv_quality a < 1 \<or> 100 < argv_quality a
         \<or> spec_background (argv_background a) = None"
    proof (cases "parse_background (argv_background a)")
      case bad: (Inl e)
      then show ?thesis by (simp add: spec_background_total)
    next
      case (Inr t)
      with Inl show ?thesis
        by (auto simp: parse_arguments_def split: if_splits)
    qed
    with Inl show ?thesis by (simp add: main_def)
  next
    case (Inr ns)
    then have "isdir fs (argv_input a)" "1 \<le> argv_quality a" "argv_quality a \<le> 100"
      "parse_background (argv_background a) = Inr (args_background ns)"
      by (auto simp: parse_arguments_def split: if_splits sum.splits)
    with Inr show ?thesis by (simp add: parse_background_spec)
  qed
  with fixed show ?thesis by blast
qed
theorem argument_validation_witness:
  "parse_arguments demo_fs demo_argv =
     Inr \<lparr>args_input = ''in'', args_output = ''out'', args_quality = 85, args_recursive = True,
          args_background = (255, 255, 255)\<rparr>
   \<and> spec_background ''255,255,255'' = Some (255, 255, 255)
   \<and> main demo_lib demo_fs (demo_argv\<lparr>argv_quality := 101\<rparr>) =
       (2, demo_fs, [PrintErr ''error: Quality must be between 1 and 100, got: 101''])"
proof -
  have ok: "parse_arguments demo_fs demo_argv =
     Inr \<lparr>args_input = ''in'', args_output = ''out'', args_quality = 85, args_recursive = True,
          args_background = (255, 255, 255)\<rparr>"
    by code_simp
  have bad: "parse_arguments demo_fs (demo_argv\<lparr>argv_quality := 101\<rparr>) =
     Inl ''Quality must be between 1 and 100, got: 101''"
    by code_simp
  from argument_validation [of demo_fs demo_argv demo_lib] ok
  have "spec_background ''255,255,255'' = Some (255, 255, 255)"
    by (simp add: demo_argv_def)
  moreover from argument_validation [of demo_fs "demo_argv\<lparr>argv_quality := 101\<rparr>" demo_lib] bad
  have "main demo_lib demo_fs (demo_argv\<lparr>argv_quality := 101\<rparr>) =
       (2, demo_fs, [PrintErr ''error: Quality must be between 1 and 100, got: 101''])"
    by simp
  ultimately show ?thesis using ok by simp
qed

text \<open>
  Claim C5. When the arguments are accepted and the walker returns, the exit status
  is 0 if a file was converted or none was skipped, and 1 if a file was skipped and
  none was converted.
\<close>

theorem exit_code_rule:
  assumes "parse_arguments fs a = Inr ns"
    and "process_directory lib fs (args_input ns) (args_output ns) (args_quality ns)
           (args_recursive ns) (args_background ns) None = Inr w"
  shows "fst (main lib fs a) = exit_code (converted_count w) (skipped_count w)
       \<and> (fst (main lib fs a) = 0 \<longleftrightarrow> 0 < converted_count w \<or> skipped_count w = 0)
       \<and> (fst (main lib fs a) = 1 \<longleftrightarrow> 0 < skipped_count w \<and> converted_count w = 0)"
  using assms by (auto simp: main_def exit_code_def)
theorem exit_code_rule_witness:
  "fst (main demo_lib bad_fs demo_argv) = 1"
proof -
  let ?ns = "\<lparr>args_input = ''in'', args_output = ''out'', args_quality = 85, args_recursive = True,
          args_background = (255, 255, 255)\<rparr>"
  have run: "process_directory demo_lib bad_fs (args_input ?ns) (args_output ?ns) (args_quality ?ns)
      (args_recursive ?ns) (args_background ?ns) None =
     Inr \<lparr>converted_count = 0, skipped_count = 1, walk_fs = bad_fs @ [([''out''], DirE)],
          walk_out = sink None ''Converting: bad.png -> bad.jpg'' False
                     @ sink None ''Error: bad.png - cannot identify image file'' True,
          walk_tasks = [([''in'', ''bad.png''], [''out'', ''bad.jpg''], False)]\<rparr>"
    by (simp add: bad_run)
  from exit_code_rule [OF bad_parse run] show ?thesis
    by (simp add: exit_code_def)
qed

text \<open>
  Claim C6 does not hold of the program. The walker converts every file with
  \<^verbatim>\<open>convert_image_with_callback\<close>, whose handler builds
  \<^verbatim>\<open>Error: <file name> - <message>\<close>, while its documentation calls it the same as
  \<^verbatim>\<open>convert_image\<close>, which prints \<^verbatim>\<open>Error converting <path>: <message>\<close>. On a folder
  with one unreadable PNG file and no callback, the run skips the file and goes on to
  the end, but the line on standard error is \<^verbatim>\<open>Error: bad.png - ...\<close> and the line
  \<^verbatim>\<open>Error converting in/bad.png: ...\<close> is not printed.
\<close>

theorem batch_error_line_differs:
  "process_directory demo_lib bad_fs ''in'' ''out'' 85 False (255, 255, 255) None =
     Inr \<lparr>converted_count = 0, skipped_count = 1, walk_fs = bad_fs @ [([''out''], DirE)],
          walk_out = [Print ''Converting: bad.png -> bad.jpg'',
                      PrintErr ''Error: bad.png - cannot identify image file''],
          walk_tasks = [([''in'', ''bad.png''], [''out'', ''bad.jpg''], False)]\<rparr>
   \<and> PrintErr ''Error converting in/bad.png: cannot identify image file''
       \<notin> set [Print ''Converting: bad.png -> bad.jpg'',
                PrintErr ''Error: bad.png - cannot identify image file'']"
  by (simp add: bad_run sink_def)

text \<open>
  Claim C7, as stated, fails at the output path: the save opens the output file
  before it encodes, and the handler removes nothing. When \<^verbatim>\<open>out/a.jpg\<close> exists from
  an earlier run and the encoder fails after the file was opened, the conversion
  returns \<^verbatim>\<open>False\<close> and the file that held three bytes is left empty.
\<close>

theorem failed_save_truncates_output:
  "convert_image_with_callback truncating_lib rerun_fs ''in/a.png'' ''out/a.jpg'' 85 (255, 255, 255) None =
     (False, demo_fs @ [([''out''], DirE), ([''out'', ''a.jpg''], FileE [])],
      [PrintErr ''Error: a.png - encoder error''])
   \<and> map_of rerun_fs (resolve ''out/a.jpg'') = Some (FileE [7, 7, 7])
   \<and> map_of (demo_fs @ [([''out''], DirE), ([''out'', ''a.jpg''], FileE [])]) (resolve ''out/a.jpg'')
       = Some (FileE [])"
proof -
  have "map_of rerun_fs [''out'', ''a.jpg''] = Some (FileE [7, 7, 7])"
    "map_of (demo_fs @ [([''out''], DirE), ([''out'', ''a.jpg''], FileE [])]) [''out'', ''a.jpg'']
       = Some (FileE [])"
    by (simp_all add: rerun_fs_def demo_fs_def)
  then show ?thesis
    by (simp add: convert_image_with_callback_def rerun_try_a demo_basenames demo_resolve_out)
qed

text \<open>
  Claim C7, amended. Whatever the converter returns, away from the output path it
  changes nothing but to add directories (the missing parents of the output path).
  When it succeeds, the encoder's output stands at the output path. When it fails, no
  file is written, but for the partial file of a save that failed after it had opened
  the output file; and when the output path names a file (its base name is neither
  empty nor a dot), what stands there is what stood there before, or that partial
  file. When the input cannot be opened, the file system is unchanged. The sample
  runs are a success, and an encoder that fails before it opens the file.
\<close>

theorem converter_writes:
  assumes "convert_image_with_callback lib fs input_path output_path quality bg_color
             progress_callback = (ok, fs2, out)"
  shows "(\<forall>p. p \<noteq> resolve output_path \<longrightarrow>
            map_of fs2 p = map_of fs p \<or> (map_of fs p = None \<and> map_of fs2 p = Some DirE))
       \<and> (ok \<longrightarrow> (\<exists>img b. jpeg_save lib img quality = Inr b
                    \<and> map_of fs2 (resolve output_path) = Some (FileE b)))
       \<and> (\<not> ok \<longrightarrow>
            map_of fs2 (resolve output_path) = map_of fs (resolve output_path)
            \<or> (map_of fs (resolve output_path) = None
                \<and> map_of fs2 (resolve output_path) = Some DirE)
            \<or> (\<exists>img m part. jpeg_save lib img quality = Inl (m, Some part)
                  \<and> map_of fs2 (resolve output_path) = Some (FileE part)))
       \<and> (\<not> ok \<longrightarrow> basename output_path \<noteq> [] \<longrightarrow> basename output_path \<noteq> ''.'' \<longrightarrow>
            map_of fs2 (resolve output_path) = map_of fs (resolve output_path)
            \<or> (\<exists>img m part. jpeg_save lib img quality = Inl (m, Some part)
                  \<and> map_of fs2 (resolve output_path) = Some (FileE part)))
       \<and> (\<forall>e. image_open lib fs input_path = Inl e \<longrightarrow> \<not> ok \<and> fs2 = fs)"
proof -
  obtain fs3 eo where body3:
    "convert_image_try lib fs input_path output_path quality bg_color = (fs3, eo)"
    by (cases "convert_image_try lib fs input_path output_path quality bg_color")
  have "fs2 = fs3 \<and> (ok \<longleftrightarrow> eo = None)"
    using assms(1) unfolding convert_image_with_callback_def try_bodies_equal body3
    by (cases eo) (simp_all add: Let_def)
  with body3 have body:
    "convert_image_try lib fs input_path output_path quality bg_color = (fs2, eo)"
    and ok: "ok \<longleftrightarrow> eo = None"
    by simp_all
  from convert_try_cases [OF body] obtain fs1 where g: "grown fs fs1"
    and d: "\<forall>p. length (resolve (dirname output_path)) < length p \<longrightarrow> map_of fs1 p = map_of fs p"
    and c: "(eo \<noteq> None \<and> fs2 = fs1)
       \<or> (\<not> is_dir fs1 (resolve output_path) \<and>
           ((\<exists>img b. eo = None \<and> jpeg_save lib img quality = Inr b
                \<and> fs2 = write_file fs1 (resolve output_path) b)
          \<or> (\<exists>img m part. eo = Some (ImageError m) \<and> jpeg_save lib img quality = Inl (m, Some part)
                \<and> fs2 = write_file fs1 (resolve output_path) part)))"
    by blast
  have others: "map_of fs2 p = map_of fs1 p" if "p \<noteq> resolve output_path" for p
    using c that by (auto simp: map_of_write_file)
  have 1: "\<forall>p. p \<noteq> resolve output_path \<longrightarrow>
            map_of fs2 p = map_of fs p \<or> (map_of fs p = None \<and> map_of fs2 p = Some DirE)"
    using others g by (simp add: grown_def)
  have 2: "ok \<longrightarrow> (\<exists>img b. jpeg_save lib img quality = Inr b
                    \<and> map_of fs2 (resolve output_path) = Some (FileE b))"
    using c ok by (auto simp: map_of_write_file)
  have grown_at: "map_of fs1 (resolve output_path) = map_of fs (resolve output_path)
      \<or> (map_of fs (resolve output_path) = None \<and> map_of fs1 (resolve output_path) = Some DirE)"
    using g by (simp add: grown_def)
  have 3: "\<not> ok \<longrightarrow>
            map_of fs2 (resolve output_path) = map_of fs (resolve output_path)
            \<or> (map_of fs (resolve output_path) = None
                \<and> map_of fs2 (resolve output_path) = Some DirE)
            \<or> (\<exists>img m part. jpeg_save lib img quality = Inl (m, Some part)
                  \<and> map_of fs2 (resolve output_path) = Some (FileE part))"
    using c ok grown_at by (auto simp: map_of_write_file)
  have 4: "map_of fs2 (resolve output_path) = map_of fs (resolve output_path)
            \<or> (\<exists>img m part. jpeg_save lib img quality = Inl (m, Some part)
                  \<and> map_of fs2 (resolve output_path) = Some (FileE part))"
    if "\<not> ok" and name: "basename output_path \<noteq> []" "basename output_path \<noteq> ''.''"
  proof -
    have "resolve output_path = resolve (dirname output_path) @ [basename output_path]"
      using name by (rule resolve_file_path)
    then have "length (resolve (dirname output_path)) < length (resolve output_path)"
      by simp
    with d have "map_of fs1 (resolve output_path) = map_of fs (resolve output_path)"
      by blast
    with c ok that(1) show ?thesis by (auto simp: map_of_write_file)
  qed
  have 5: "\<forall>e. image_open lib fs input_path = Inl e \<longrightarrow> \<not> ok \<and> fs2 = fs"
    using body ok by (auto simp: convert_image_try_def)
  from 1 2 3 4 5 show ?thesis by blast
qed
theorem converter_writes_witness:
  "convert_image_with_callback demo_lib demo_fs ''in/a.png'' ''out/a.jpg'' 85 (255, 255, 255) None =
     (True, demo_fs @ [([''out''], DirE), ([''out'', ''a.jpg''], FileE [255, 255, 255, 200, 100, 50])], [])
   \<and> (\<exists>img b. jpeg_save demo_lib img 85 = Inr b
        \<and> map_of (demo_fs @ [([''out''], DirE),
                     ([''out'', ''a.jpg''], FileE [255, 255, 255, 200, 100, 50])])
            (resolve ''out/a.jpg'') = Some (FileE b))
   \<and> convert_image_with_callback failing_lib demo_fs ''in/a.png'' ''out/a.jpg'' 85 (255, 255, 255) None =
     (False, demo_fs @ [([''out''], DirE)], [PrintErr ''Error: a.png - encoder error''])
   \<and> basename ''out/a.jpg'' \<noteq> [] \<and> basename ''out/a.jpg'' \<noteq> ''.''
   \<and> map_of (demo_fs @ [([''out''], DirE)]) (resolve ''out/a.jpg'') =
       map_of demo_fs (resolve ''out/a.jpg'')"
proof -
  have run: "convert_image_with_callback demo_lib demo_fs ''in/a.png'' ''out/a.jpg'' 85 (255, 255, 255) None =
     (True, demo_fs @ [([''out''], DirE), ([''out'', ''a.jpg''], FileE [255, 255, 255, 200, 100, 50])], [])"
    by (simp add: convert_image_with_callback_def demo_try_a)
  from converter_writes [OF run, THEN conjunct2, THEN conjunct1]
  have written: "\<exists>img b. jpeg_save demo_lib img 85 = Inr b
        \<and> map_of (demo_fs @ [([''out''], DirE),
                     ([''out'', ''a.jpg''], FileE [255, 255, 255, 200, 100, 50])])
            (resolve ''out/a.jpg'') = Some (FileE b)"
    by (rule mp) (rule TrueI)
  have failed: "convert_image_with_callback failing_lib demo_fs ''in/a.png'' ''out/a.jpg'' 85
      (255, 255, 255) None =
     (False, demo_fs @ [([''out''], DirE)], [PrintErr ''Error: a.png - encoder error''])"
    by (simp add: convert_image_with_callback_def failing_try_a demo_basenames)
  note at_output = converter_writes [OF failed, THEN conjunct2, THEN conjunct2, THEN conjunct2,
      THEN conjunct1, rule_format, OF _ demo_out_name]
  have "map_of (demo_fs @ [([''out''], DirE)]) (resolve ''out/a.jpg'') =
          map_of demo_fs (resolve ''out/a.jpg'')
        \<or> (\<exists>img m part. jpeg_save failing_lib img 85 = Inl (m, Some part)
              \<and> map_of (demo_fs @ [([''out''], DirE)]) (resolve ''out/a.jpg'') = Some (FileE part))"
    by (rule at_output) simp
  then have unchanged: "map_of (demo_fs @ [([''out''], DirE)]) (resolve ''out/a.jpg'') =
          map_of demo_fs (resolve ''out/a.jpg'')"
    unfolding failing_lib_sel by blast
  from run written failed demo_out_name unchanged show ?thesis by (intro conjI)
qed

text \<open>
  Claim C8. The parser of the command line and the parser of the custom colour field
  reject the same strings and accept the others with the same colour.
\<close>

theorem bg_parsers_equivalent:
  "(\<exists>e e'. parse_background s = Inl e \<and> parse_bg_color s = Inl e')
   \<or> (\<exists>t. parse_background s = Inr t \<and> parse_bg_color s = Inr t)"
proof (cases "length (split (CHR '','') s) = 3")
  case False
  then show ?thesis
    by (simp add: parse_bg_color_def parse_background_def)
next
  case len: True
  show ?thesis
  proof (cases "ints_of (split (CHR '','') s)")
    case (Inl m)
    with len show ?thesis
      by (simp add: parse_bg_color_def parse_background_def)
  next
    case (Inr vs)
    show ?thesis
    proof (cases "find (\<lambda>val. \<not> (0 \<le> val \<and> val \<le> 255)) vs")
      case None
      with len Inr show ?thesis
        by (simp add: parse_bg_color_def parse_background_def)
    next
      case (Some val)
      with len Inr show ?thesis
        by (simp add: parse_bg_color_def parse_background_def)
    qed
  qed
qed

text \<open>
  Claim C9 does not hold of the program: \<^verbatim>\<open>run_conversion\<close>, which runs in the worker
  thread, calls \<^verbatim>\<open>log_message\<close> itself, in every run, and only the messages of the
  walker and the final reset go through \<^verbatim>\<open>root.after\<close>. The second part is the run on
  a folder with one unreadable PNG file.
\<close>

theorem worker_writes_widgets:
  "(\<exists>m e. Widget (LogMessage m e) \<in> set (snd (run_conversion lib fs g)))
   \<and> snd (run_conversion demo_lib bad_fs demo_gui) =
     [Widget (LogMessage ''Input: in'' False), Widget (LogMessage ''Output: out'' False),
      Widget (LogMessage ''Quality: 85'' False), Widget (LogMessage ''Recursive: False'' False),
      Widget (LogMessage ''Background: RGB(255, 255, 255)'' False),
      Widget (LogMessage ''----------------------------------------'' False),
      After (LogMessage ''Converting: bad.png -> bad.jpg'' False),
      After (LogMessage ''Error: bad.png - cannot identify image file'' True),
      Widget (LogMessage ''----------------------------------------'' False),
      Widget (LogMessage ''Complete! Converted 0 files. 1 skipped.'' False),
      After ConversionComplete]"
  using worker_log_is_direct [of lib fs g] bad_gui_run by (intro conjI)

text \<open>
  Claim C10 does not hold of the program. The two converters have the same body, so
  they return the same boolean and leave the same file system; but
  \<^verbatim>\<open>convert_image_with_callback\<close>, documented as the same as \<^verbatim>\<open>convert_image\<close> but for
  where the error goes, also builds another message. With no callback both print to
  standard error, on the same unreadable file, and the two lines differ.
\<close>

theorem error_messages_differ:
  "convert_image demo_lib demo_fs ''in/bad.png'' ''out/bad.jpg'' 85 (255, 255, 255) =
     (False, demo_fs, [PrintErr ''Error converting in/bad.png: cannot identify image file''])
   \<and> convert_image_with_callback demo_lib demo_fs ''in/bad.png'' ''out/bad.jpg'' 85 (255, 255, 255) None =
     (False, demo_fs, [PrintErr ''Error: bad.png - cannot identify image file''])"
  using demo_try_bad
  by (simp add: convert_image_def convert_image_with_callback_def try_bodies_equal demo_basenames)

end
